theory Spec2Isabelle
  imports Main
begin

section \<open>Serial line ingestion of \<open>backend/app.py\<close>\<close>

text \<open>
  The program keeps one global dictionary \<open>latest_data\<close>, written by the function
  \<open>read_serial\<close> (a loop over lines of a serial port) and read by the route
  \<open>get_data\<close>. The model below follows the source statement by statement.

  Text is a \<^typ>\<open>string\<close>: a list of characters with code points below 256. A decoded line
  holding a code point above 255 is outside the model.
\<close>

subsection \<open>Python values, the dictionary and the exceptions\<close>

text \<open>
  The result of \<open>float(token)\<close>. \<open>Dec neg m e\<close> stands for the double that Python
  rounds the decimal number \<open>(-1)^neg * m * 10^e\<close> to (an infinity or a zero when that
  number is beyond the range of a double); the rounding itself is not modelled.
\<close>

datatype py_float = Dec bool nat int | Inf bool | NaN

datatype py_value = PyInt int | PyFloat py_float

type_synonym py_dict = "(string \<times> py_value) list"

datatype exn = SerialException | UnicodeDecodeError | UnicodeEncodeError | ValueError string

subsection \<open>The built-ins \<open>str.strip\<close>, \<open>str.split\<close>, \<open>int\<close> and \<open>float\<close>\<close>

definition is_digit :: "char \<Rightarrow> bool" where
  "is_digit c = (c \<in> set ''0123456789'')"

definition digit_val :: "char \<Rightarrow> nat" where
  "digit_val c = of_char c - 48"

text \<open>The value of a string of decimal digits, most significant digit first.\<close>

definition digits_val :: "string \<Rightarrow> nat" where
  "digits_val ds = foldl (\<lambda>n c. 10 * n + digit_val c) 0 ds"

text \<open>
  \<open>str.isspace\<close>, which \<open>str.strip()\<close> uses: tab, line feed, vertical tab, form feed,
  carriage return, the four separators \<open>0x1C\<close> to \<open>0x1F\<close>, space, \<open>0x85\<close> and \<open>0xA0\<close>.
\<close>

definition str_isspace :: "char \<Rightarrow> bool" where
  "str_isspace c =
     (c \<in> set [CHR 0x09, CHR 0x0A, CHR 0x0B, CHR 0x0C, CHR 0x0D,
               CHR 0x1C, CHR 0x1D, CHR 0x1E, CHR 0x1F, CHR 0x20, CHR 0x85, CHR 0xA0])"

text \<open>
  The white space that \<open>int\<close> and \<open>float\<close> drop around a literal: the same characters
  without the four separators \<open>0x1C\<close> to \<open>0x1F\<close>.
\<close>

definition num_isspace :: "char \<Rightarrow> bool" where
  "num_isspace c =
     (c \<in> set [CHR 0x09, CHR 0x0A, CHR 0x0B, CHR 0x0C, CHR 0x0D,
               CHR 0x20, CHR 0x85, CHR 0xA0])"

definition strip_with :: "(char \<Rightarrow> bool) \<Rightarrow> string \<Rightarrow> string" where
  "strip_with sp s = rev (dropWhile sp (rev (dropWhile sp s)))"

definition strip :: "string \<Rightarrow> string" where
  "strip s = strip_with str_isspace s"

text \<open>\<open>s.split(',')\<close>: the pieces between the commas, one more than there are commas.\<close>

fun split_comma :: "string \<Rightarrow> string list" where
  "split_comma [] = [[]]"
| "split_comma (c # cs) =
     (if c = CHR '','' then [] # split_comma cs
      else (case split_comma cs of
              [] \<Rightarrow> [[c]]
            | t # ts \<Rightarrow> (c # t) # ts))"

text \<open>
  Digit separators: an underscore is accepted only between two digits. The function
  walks the literal with the previous character at hand and returns the literal without
  its underscores, or \<open>None\<close> for a misplaced one.
\<close>

fun drop_underscores :: "char \<Rightarrow> string \<Rightarrow> string option" where
  "drop_underscores prev [] = (if prev = CHR ''_'' then None else Some [])"
| "drop_underscores prev (c # cs) =
     (if c = CHR ''_'' then
        (if is_digit prev then drop_underscores c cs else None)
      else if prev = CHR ''_'' \<and> \<not> is_digit c then None
      else map_option ((#) c) (drop_underscores c cs))"

text \<open>An optional sign in front of a literal: whether it is negative, and the rest.\<close>

fun take_sign :: "string \<Rightarrow> bool \<times> string" where
  "take_sign [] = (False, [])"
| "take_sign (c # cs) =
     (if c = CHR ''-'' then (True, cs)
      else if c = CHR ''+'' then (False, cs)
      else (False, c # cs))"

text \<open>
  The default of \<open>sys.int_max_str_digits\<close>: \<open>int\<close> raises \<open>ValueError\<close> for a literal
  with more digits.
\<close>

definition int_max_str_digits :: nat where
  "int_max_str_digits = 4300"

text \<open>
  \<open>int(token)\<close> in base 10: white space around, an optional sign, then decimal digits
  with single underscores between them. \<open>None\<close> is the \<open>ValueError\<close>.
\<close>

definition py_int :: "string \<Rightarrow> int option" where
  "py_int token =
     (case drop_underscores (CHR 0x00) (strip_with num_isspace token) of
        None \<Rightarrow> None
      | Some s \<Rightarrow>
          (let (neg, ds) = take_sign s in
           if ds = [] \<or> \<not> list_all is_digit ds \<or> int_max_str_digits < length ds then None
           else Some (if neg then - int (digits_val ds) else int (digits_val ds))))"

definition to_lower :: "char \<Rightarrow> char" where
  "to_lower c =
     (if c \<in> set ''ABCDEFGHIJKLMNOPQRSTUVWXYZ'' then char_of (of_char c + (32::nat)) else c)"

text \<open>The exponent part of a float literal, after the digits: its value, if well formed.\<close>

definition exponent :: "string \<Rightarrow> int option" where
  "exponent s =
     (case s of
        [] \<Rightarrow> Some 0
      | c # cs \<Rightarrow>
          (if c = CHR ''e'' \<or> c = CHR ''E'' then
             (let (neg, ds) = take_sign cs in
              if ds = [] \<or> \<not> list_all is_digit ds then None
              else Some (if neg then - int (digits_val ds) else int (digits_val ds)))
           else None))"

text \<open>
  \<open>float(token)\<close>: white space around, underscores between digits, an optional sign, then
  either digits with an optional fraction and an optional exponent (at least one digit
  before the exponent), or one of \<open>inf\<close>, \<open>infinity\<close> and \<open>nan\<close> in any letter case.
  \<open>None\<close> is the \<open>ValueError\<close>.
\<close>

definition py_float :: "string \<Rightarrow> py_float option" where
  "py_float token =
     (case drop_underscores (CHR 0x00) (strip_with num_isspace token) of
        None \<Rightarrow> None
      | Some s \<Rightarrow>
          (let (neg, r) = take_sign s;
               ip = takeWhile is_digit r;
               r1 = dropWhile is_digit r;
               (fp, r2) = (case r1 of
                             [] \<Rightarrow> ([], r1)
                           | c # cs \<Rightarrow>
                               if c = CHR ''.'' then (takeWhile is_digit cs, dropWhile is_digit cs)
                               else ([], r1))
           in if ip = [] \<and> fp = [] then
                (let w = map to_lower r in
                 if w = ''inf'' \<or> w = ''infinity'' then Some (Inf neg)
                 else if w = ''nan'' then Some NaN
                 else None)
              else
                (case exponent r2 of
                   None \<Rightarrow> None
                 | Some e \<Rightarrow> Some (Dec neg (digits_val (ip @ fp)) (e - int (length fp))))))"

subsection \<open>The program state and what the program does to the outside\<close>

text \<open>
  What a run leaves behind besides the dictionary: the texts that the three \<open>print\<close> calls
  of \<open>read_serial\<close> have written, the \<open>time.sleep\<close> calls with their seconds, the opening
  of the port with its path, baud rate and read timeout, the start of the reader thread,
  and \<open>app.run\<close>.
\<close>

datatype effect =
    Print_received string
  | Print_parsed py_dict
  | Print_serial_error exn
  | Sleep nat
  | Open_serial string nat nat
  | Thread_start
  | App_run

record state =
  latest_data :: py_dict
  effects :: "effect list"

definition emit :: "effect \<Rightarrow> state \<Rightarrow> state" where
  "emit e s = s\<lparr>effects := effects s @ [e]\<rparr>"

text \<open>The dictionary literal of both assignments to \<open>latest_data\<close>, in the order of its keys.\<close>

definition reading :: "py_value \<Rightarrow> py_value \<Rightarrow> py_value \<Rightarrow> py_value \<Rightarrow> py_value \<Rightarrow> py_dict" where
  "reading a d h c f =
     [(''angle'', a), (''distance'', d), (''humidity'', h),
      (''temperatureC'', c), (''temperatureF'', f)]"

definition initial_state :: state where
  "initial_state =
     \<lparr>latest_data = reading (PyInt 0) (PyInt 0) (PyInt 0) (PyInt 0) (PyInt 0), effects = []\<rparr>"

subsection \<open>Opening the port, and the main block\<close>

record serial =
  port :: string
  baudrate :: nat
  timeout :: nat

text \<open>
  The module level: the port is opened only when the environment variable
  \<open>WERKZEUG_RUN_MAIN\<close> is \<open>'true'\<close>, and \<open>ser\<close> is \<open>None\<close> otherwise. \<open>port_ok\<close> says
  whether \<open>serial.Serial\<close> succeeds; when it raises, the import fails with the exception.
\<close>

definition module_init :: "(string \<rightharpoonup> string) \<Rightarrow> bool \<Rightarrow> exn + (serial option \<times> effect list)" where
  "module_init env port_ok =
     (if env ''WERKZEUG_RUN_MAIN'' = Some ''true'' then
        (if port_ok then
           Inr (Some \<lparr>port = ''/dev/cu.usbmodem2101'', baudrate = 115200, timeout = 1\<rparr>,
                [Open_serial ''/dev/cu.usbmodem2101'' 115200 1, Sleep 2])
         else Inl SerialException)
      else Inr (None, []))"

text \<open>The block under \<open>__name__ == '__main__'\<close>, after the module level.\<close>

definition main :: "(string \<rightharpoonup> string) \<Rightarrow> bool \<Rightarrow> exn + (serial option \<times> effect list)" where
  "main env port_ok =
     (case module_init env port_ok of
        Inl e \<Rightarrow> Inl e
      | Inr (ser, effs) \<Rightarrow>
          Inr (ser, effs
                 @ (if env ''WERKZEUG_RUN_MAIN'' = Some ''true'' then [Thread_start] else [])
                 @ [App_run]))"

subsection \<open>The reader loop\<close>

text \<open>
  What the port does in one pass of the loop: \<open>ser.in_waiting\<close> raises, or it is zero, or
  \<open>ser.readline()\<close> raises, or the bytes read are not valid UTF-8 and \<open>decode()\<close> raises, or
  they decode to a text.
\<close>

datatype serial_event =
    In_waiting_raises
  | Nothing_waiting
  | Readline_raises
  | Decode_raises
  | Line string

text \<open>
  \<open>print\<close> writes to \<open>sys.stdout\<close>, which is taken to be open. Its encoding covers the
  ASCII characters; \<open>enc\<close> says which of the other characters it covers. A \<open>print\<close>
  raises \<open>UnicodeEncodeError\<close> when its text has a character outside the encoding.
\<close>

type_synonym encoding = "char \<Rightarrow> bool"

definition can_print :: "encoding \<Rightarrow> string \<Rightarrow> bool" where
  "can_print enc text = list_all (\<lambda>c. of_char c < (128::nat) \<or> enc c) text"

text \<open>Two encodings: ASCII alone, and one that covers every character (UTF-8).\<close>

definition ascii_stdout :: encoding where
  "ascii_stdout c = False"

definition utf8_stdout :: encoding where
  "utf8_stdout c = True"

text \<open>
  The \<open>except Exception\<close> branch: print the error, sleep one second. The text of this
  \<open>print\<close> never leaves the encoding: the messages of a serial error and of the two
  Unicode errors are ASCII, and the message of a \<open>ValueError\<close> of \<open>int\<close> or \<open>float\<close> is
  ASCII around the \<open>repr\<close> of the token, whose characters are escaped to ASCII or are
  characters of the line, which the loop has printed before it converts any token.
\<close>

definition handler :: "exn \<Rightarrow> state \<Rightarrow> state" where
  "handler e s = emit (Sleep 1) (emit (Print_serial_error e) s)"

text \<open>
  The dictionary literal of the loop: the five conversions run in the order of the keys, and
  the first one that raises ends the evaluation with its \<open>ValueError\<close>.
\<close>

definition parse_reading :: "string list \<Rightarrow> exn + py_dict" where
  "parse_reading parts =
     (case py_int (parts ! 0) of
        None \<Rightarrow> Inl (ValueError (parts ! 0))
      | Some a \<Rightarrow>
     (case py_float (parts ! 1) of
        None \<Rightarrow> Inl (ValueError (parts ! 1))
      | Some d \<Rightarrow>
     (case py_float (parts ! 2) of
        None \<Rightarrow> Inl (ValueError (parts ! 2))
      | Some h \<Rightarrow>
     (case py_float (parts ! 3) of
        None \<Rightarrow> Inl (ValueError (parts ! 3))
      | Some c \<Rightarrow>
     (case py_float (parts ! 4) of
        None \<Rightarrow> Inl (ValueError (parts ! 4))
      | Some f \<Rightarrow>
          Inr (reading (PyInt a) (PyFloat d) (PyFloat h) (PyFloat c) (PyFloat f)))))))"

text \<open>
  One pass of the body of \<open>while True\<close>. The \<open>print\<close> of the received line comes first in
  the \<open>try\<close>: when it raises, the \<open>except\<close> branch runs and the line is neither split nor
  published. \<open>parse_reading\<close> is called only on a list of five parts, so every index it
  reads is in range. The text of the last \<open>print\<close>, after the assignment, is the \<open>repr\<close>
  of a dictionary of five ASCII keys, an integer and four floats: it is ASCII and never
  leaves the encoding.
\<close>

definition iteration :: "encoding \<Rightarrow> serial_event \<Rightarrow> state \<Rightarrow> state" where
  "iteration enc ev s =
     (case ev of
        In_waiting_raises \<Rightarrow> handler SerialException s
      | Nothing_waiting \<Rightarrow> s
      | Readline_raises \<Rightarrow> handler SerialException s
      | Decode_raises \<Rightarrow> handler UnicodeDecodeError s
      | Line raw \<Rightarrow>
          (let line = strip raw in
           if \<not> can_print enc (''Received: '' @ line) then handler UnicodeEncodeError s
           else
             (let s1 = emit (Print_received line) s;
                  parts = split_comma line
              in if length parts = 5 then
                   (case parse_reading parts of
                      Inl e \<Rightarrow> handler e s1
                    | Inr d \<Rightarrow> emit (Print_parsed d) (s1\<lparr>latest_data := d\<rparr>))
                 else s1)))"

text \<open>
  The loop never ends by itself; \<open>run\<close> is the state after the passes for a finite list
  of port events, one pass for each.
\<close>

fun run :: "encoding \<Rightarrow> serial_event list \<Rightarrow> state \<Rightarrow> state" where
  "run enc [] s = s"
| "run enc (ev # evs) s = run enc evs (iteration enc ev s)"

text \<open>\<open>read_serial\<close>: return at once when \<open>ser\<close> is \<open>None\<close>, loop otherwise.\<close>

definition read_serial :: "serial option \<Rightarrow> encoding \<Rightarrow> serial_event list \<Rightarrow> state \<Rightarrow> state" where
  "read_serial ser enc evs s = (case ser of None \<Rightarrow> s | Some dev \<Rightarrow> run enc evs s)"

text \<open>
  The route \<open>/data\<close>: the response is the dictionary (its JSON rendering is Flask's), and
  the state after the call is returned with it.
\<close>

definition get_data :: "state \<Rightarrow> py_dict \<times> state" where
  "get_data s = (latest_data s, s)"

text \<open>The seconds slept among some effects.\<close>

fun slept :: "effect list \<Rightarrow> nat" where
  "slept [] = 0"
| "slept (Sleep n # es) = n + slept es"
| "slept (e # es) = slept es"

text \<open>The effects a pass adds to those of the state it starts from.\<close>

definition added :: "encoding \<Rightarrow> serial_event \<Rightarrow> state \<Rightarrow> effect list" where
  "added enc ev s = drop (length (effects s)) (effects (iteration enc ev s))"

section \<open>Properties\<close>

subsection \<open>Auxiliary facts\<close>

lemma parse_reading_ok:
  assumes "py_int (parts ! 0) = Some a" and "py_float (parts ! 1) = Some d"
    and "py_float (parts ! 2) = Some h" and "py_float (parts ! 3) = Some c"
    and "py_float (parts ! 4) = Some f"
  shows "parse_reading parts = Inr (reading (PyInt a) (PyFloat d) (PyFloat h) (PyFloat c) (PyFloat f))"
  using assms by (simp add: parse_reading_def)

lemma parse_reading_fails:
  assumes "py_int (parts ! 0) = None \<or> py_float (parts ! 1) = None \<or> py_float (parts ! 2) = None
      \<or> py_float (parts ! 3) = None \<or> py_float (parts ! 4) = None"
  shows "\<exists>t. parse_reading parts = Inl (ValueError t)"
  using assms by (auto simp: parse_reading_def split: option.splits)

lemma parse_reading_Inr:
  assumes "parse_reading parts = Inr r"
  shows "\<exists>a d h c f. py_int (parts ! 0) = Some a \<and> py_float (parts ! 1) = Some d
      \<and> py_float (parts ! 2) = Some h \<and> py_float (parts ! 3) = Some c
      \<and> py_float (parts ! 4) = Some f
      \<and> r = reading (PyInt a) (PyFloat d) (PyFloat h) (PyFloat c) (PyFloat f)"
  using assms by (auto simp: parse_reading_def split: option.splits)

lemma handler_latest_data [simp]: "latest_data (handler e s) = latest_data s"
  by (simp add: handler_def emit_def)

lemma handler_effects [simp]:
  "effects (handler e s) = effects s @ [Print_serial_error e, Sleep 1]"
  by (simp add: handler_def emit_def)

lemma emit_latest_data [simp]: "latest_data (emit e s) = latest_data s"
  by (simp add: emit_def)

lemma emit_effects [simp]: "effects (emit e s) = effects s @ [e]"
  by (simp add: emit_def)

lemma can_print_Received: "can_print enc (''Received: '' @ line) = can_print enc line"
  by (simp add: can_print_def)

text \<open>The four ways a pass over a received text can go.\<close>

lemma iteration_unprintable:
  assumes "\<not> can_print enc (strip raw)"
  shows "iteration enc (Line raw) s = handler UnicodeEncodeError s"
  using assms unfolding iteration_def can_print_Received by (simp add: Let_def)

lemma iteration_wrong_count:
  assumes "can_print enc (strip raw)" and "length (split_comma (strip raw)) \<noteq> 5"
  shows "iteration enc (Line raw) s = emit (Print_received (strip raw)) s"
  using assms unfolding iteration_def can_print_Received by (simp add: Let_def)

lemma iteration_parse_error:
  assumes "can_print enc (strip raw)" and "length (split_comma (strip raw)) = 5"
    and "parse_reading (split_comma (strip raw)) = Inl e"
  shows "iteration enc (Line raw) s = handler e (emit (Print_received (strip raw)) s)"
  using assms unfolding iteration_def can_print_Received by (simp add: Let_def)

lemma iteration_publish:
  assumes "can_print enc (strip raw)" and "length (split_comma (strip raw)) = 5"
    and "parse_reading (split_comma (strip raw)) = Inr r"
  shows "iteration enc (Line raw) s =
     emit (Print_parsed r) ((emit (Print_received (strip raw)) s)\<lparr>latest_data := r\<rparr>)"
  using assms unfolding iteration_def can_print_Received by (simp add: Let_def)

lemma iteration_cases:
  obtains (same) es where "latest_data (iteration enc ev s) = latest_data s"
      "effects (iteration enc ev s) = effects s @ es"
      "\<forall>r. Print_parsed r \<notin> set es"
  | (publish) raw r where "ev = Line raw" "can_print enc (strip raw)"
      "length (split_comma (strip raw)) = 5"
      "parse_reading (split_comma (strip raw)) = Inr r"
      "latest_data (iteration enc ev s) = r"
      "effects (iteration enc ev s) = effects s @ [Print_received (strip raw), Print_parsed r]"
proof (cases ev)
  case In_waiting_raises
  then show ?thesis
    using same [of "[Print_serial_error SerialException, Sleep 1]"] by (simp add: iteration_def)
next
  case Nothing_waiting
  then show ?thesis using same [of "[]"] by (simp add: iteration_def)
next
  case Readline_raises
  then show ?thesis
    using same [of "[Print_serial_error SerialException, Sleep 1]"] by (simp add: iteration_def)
next
  case Decode_raises
  then show ?thesis
    using same [of "[Print_serial_error UnicodeDecodeError, Sleep 1]"] by (simp add: iteration_def)
next
  case (Line raw)
  show ?thesis
  proof (cases "can_print enc (strip raw)")
    case False
    then have "iteration enc ev s = handler UnicodeEncodeError s"
      using Line by (simp add: iteration_unprintable)
    then show ?thesis
      using same [of "[Print_serial_error UnicodeEncodeError, Sleep 1]"] by simp
  next
    case printed: True
    show ?thesis
    proof (cases "length (split_comma (strip raw)) = 5")
      case False
      then have "iteration enc ev s = emit (Print_received (strip raw)) s"
        using Line printed by (simp add: iteration_wrong_count)
      then show ?thesis using same [of "[Print_received (strip raw)]"] by simp
    next
      case True
      show ?thesis
      proof (cases "parse_reading (split_comma (strip raw))")
        case (Inl e)
        then have "iteration enc ev s = handler e (emit (Print_received (strip raw)) s)"
          using Line True printed by (simp add: iteration_parse_error)
        then show ?thesis
          using same [of "[Print_received (strip raw), Print_serial_error e, Sleep 1]"] by simp
      next
        case (Inr r)
        then have "iteration enc ev s =
            emit (Print_parsed r) ((emit (Print_received (strip raw)) s)\<lparr>latest_data := r\<rparr>)"
          using Line True printed by (simp add: iteration_publish)
        then show ?thesis using publish [of raw r] Line True Inr printed by simp
      qed
    qed
  qed
qed

lemma iteration_effects_prefix: "\<exists>es. effects (iteration enc ev s) = effects s @ es"
  by (cases enc ev s rule: iteration_cases) auto

lemma run_effects_prefix: "\<exists>es. effects (run enc evs s) = effects s @ es"
proof (induction evs arbitrary: s)
  case Nil
  show ?case by simp
next
  case (Cons ev evs)
  obtain es1 where "effects (iteration enc ev s) = effects s @ es1"
    using iteration_effects_prefix by blast
  moreover obtain es2 where
    "effects (run enc evs (iteration enc ev s)) = effects (iteration enc ev s) @ es2"
    using Cons.IH by blast
  ultimately show ?case by simp
qed

subsection \<open>Well-formed lines are published\<close>

text \<open>
  Claim C1, as stated: every line of five tokens that \<open>int\<close> and \<open>float\<close> accept replaces
  \<open>latest_data\<close>. This fails when the \<open>print\<close> of the received line raises, which comes
  before the assignment in the same \<open>try\<close>. On an ASCII \<open>stdout\<close>, the line
  \<open>45\<close>, no-break space, \<open>,1,2,3,4\<close> has five accepted tokens (\<open>int\<close> drops the no-break
  space), and the pass prints the error, sleeps and leaves \<open>latest_data\<close> as it was.
\<close>

theorem well_formed_line_published_counterexample:
  "split_comma (strip (''45'' @ [CHR 0xA0] @ '',1,2,3,4''))
     = [''45'' @ [CHR 0xA0], ''1'', ''2'', ''3'', ''4'']
   \<and> py_int (''45'' @ [CHR 0xA0]) = Some 45
   \<and> py_float ''1'' = Some (Dec False 1 0) \<and> py_float ''2'' = Some (Dec False 2 0)
   \<and> py_float ''3'' = Some (Dec False 3 0) \<and> py_float ''4'' = Some (Dec False 4 0)
   \<and> latest_data (iteration ascii_stdout (Line (''45'' @ [CHR 0xA0] @ '',1,2,3,4'')) initial_state)
       = [(''angle'', PyInt 0), (''distance'', PyInt 0), (''humidity'', PyInt 0),
          (''temperatureC'', PyInt 0), (''temperatureF'', PyInt 0)]
   \<and> added ascii_stdout (Line (''45'' @ [CHR 0xA0] @ '',1,2,3,4'')) initial_state
       = [Print_serial_error UnicodeEncodeError, Sleep 1]"
proof -
  have 1: "split_comma (strip (''45'' @ [CHR 0xA0] @ '',1,2,3,4''))
     = [''45'' @ [CHR 0xA0], ''1'', ''2'', ''3'', ''4'']"
    by code_simp
  have 2: "py_int (''45'' @ [CHR 0xA0]) = Some 45"
    by code_simp
  have 3: "py_float ''1'' = Some (Dec False 1 0)" "py_float ''2'' = Some (Dec False 2 0)"
    "py_float ''3'' = Some (Dec False 3 0)" "py_float ''4'' = Some (Dec False 4 0)"
    by code_simp+
  have 4: "latest_data (iteration ascii_stdout (Line (''45'' @ [CHR 0xA0] @ '',1,2,3,4'')) initial_state)
       = [(''angle'', PyInt 0), (''distance'', PyInt 0), (''humidity'', PyInt 0),
          (''temperatureC'', PyInt 0), (''temperatureF'', PyInt 0)]"
    by code_simp
  have 5: "added ascii_stdout (Line (''45'' @ [CHR 0xA0] @ '',1,2,3,4'')) initial_state
       = [Print_serial_error UnicodeEncodeError, Sleep 1]"
    by code_simp
  show ?thesis
    using 1 2 3 4 5 by (intro conjI)
qed

text \<open>
  Claim C1, amended. Let \<open>line\<close> be the text the loop splits (the decoded text after
  \<open>strip()\<close>). When \<open>stdout\<close> can encode it, so that the \<open>print\<close> of the received line does
  not raise, and it splits on the comma into exactly five tokens, the first of which \<open>int\<close>
  accepts and the other four of which \<open>float\<close> accepts, the pass replaces \<open>latest_data\<close>
  with the dictionary of the five parsed values: angle, distance, humidity, temperatureC,
  temperatureF, in that order.
\<close>

theorem well_formed_line_published:
  assumes "can_print enc (strip raw)"
    and "split_comma (strip raw) = [t0, t1, t2, t3, t4]"
    and "py_int t0 = Some a" and "py_float t1 = Some d" and "py_float t2 = Some h"
    and "py_float t3 = Some c" and "py_float t4 = Some f"
  shows "latest_data (iteration enc (Line raw) s) =
     [(''angle'', PyInt a), (''distance'', PyFloat d), (''humidity'', PyFloat h),
      (''temperatureC'', PyFloat c), (''temperatureF'', PyFloat f)]"
proof -
  let ?parts = "split_comma (strip raw)"
  have len: "length ?parts = 5"
    using assms(2) by simp
  have "parse_reading ?parts =
      Inr (reading (PyInt a) (PyFloat d) (PyFloat h) (PyFloat c) (PyFloat f))"
    using assms by (intro parse_reading_ok) simp_all
  then have "latest_data (iteration enc (Line raw) s) =
      reading (PyInt a) (PyFloat d) (PyFloat h) (PyFloat c) (PyFloat f)"
    using len assms(1) by (simp add: iteration_publish)
  then show ?thesis by (simp add: reading_def)
qed

text \<open>
  The line of the specification's scenario, \<open>45,12.5,60.2,22.1,71.8\<close>, with its line end,
  on an ASCII \<open>stdout\<close>.
\<close>

theorem well_formed_line_published_witness:
  "can_print ascii_stdout (strip (''45,12.5,60.2,22.1,71.8'' @ [CHR 0x0D, CHR 0x0A]))
   \<and> split_comma (strip (''45,12.5,60.2,22.1,71.8'' @ [CHR 0x0D, CHR 0x0A]))
     = [''45'', ''12.5'', ''60.2'', ''22.1'', ''71.8'']
   \<and> py_int ''45'' = Some 45
   \<and> py_float ''12.5'' = Some (Dec False 125 (- 1))
   \<and> py_float ''60.2'' = Some (Dec False 602 (- 1))
   \<and> py_float ''22.1'' = Some (Dec False 221 (- 1))
   \<and> py_float ''71.8'' = Some (Dec False 718 (- 1))
   \<and> latest_data (iteration ascii_stdout
         (Line (''45,12.5,60.2,22.1,71.8'' @ [CHR 0x0D, CHR 0x0A])) initial_state) =
     [(''angle'', PyInt 45), (''distance'', PyFloat (Dec False 125 (- 1))),
      (''humidity'', PyFloat (Dec False 602 (- 1))),
      (''temperatureC'', PyFloat (Dec False 221 (- 1))),
      (''temperatureF'', PyFloat (Dec False 718 (- 1)))]"
proof -
  have pr: "can_print ascii_stdout (strip (''45,12.5,60.2,22.1,71.8'' @ [CHR 0x0D, CHR 0x0A]))"
    by code_simp
  have p: "split_comma (strip (''45,12.5,60.2,22.1,71.8'' @ [CHR 0x0D, CHR 0x0A]))
     = [''45'', ''12.5'', ''60.2'', ''22.1'', ''71.8'']"
    by code_simp
  have a: "py_int ''45'' = Some 45"
    by code_simp
  have d: "py_float ''12.5'' = Some (Dec False 125 (- 1))"
    by code_simp
  have h: "py_float ''60.2'' = Some (Dec False 602 (- 1))"
    by code_simp
  have c: "py_float ''22.1'' = Some (Dec False 221 (- 1))"
    by code_simp
  have f: "py_float ''71.8'' = Some (Dec False 718 (- 1))"
    by code_simp
  show ?thesis
    using pr p a d h c f well_formed_line_published [OF pr p a d h c f, of initial_state]
    by (intro conjI)
qed

subsection \<open>Malformed lines leave the dictionary alone\<close>

text \<open>
  Claim C2. When the text the loop splits has a number of tokens other than five, or has
  five tokens of which the first is refused by \<open>int\<close> or one of the other four is refused by
  \<open>float\<close>, \<open>latest_data\<close> after the pass is \<open>latest_data\<close> before it, whatever \<open>stdout\<close>
  can encode.
\<close>

theorem malformed_line_keeps_snapshot:
  assumes "length (split_comma (strip raw)) \<noteq> 5
      \<or> (length (split_comma (strip raw)) = 5
          \<and> (py_int (split_comma (strip raw) ! 0) = None
             \<or> py_float (split_comma (strip raw) ! 1) = None
             \<or> py_float (split_comma (strip raw) ! 2) = None
             \<or> py_float (split_comma (strip raw) ! 3) = None
             \<or> py_float (split_comma (strip raw) ! 4) = None))"
  shows "latest_data (iteration enc (Line raw) s) = latest_data s"
proof (cases "can_print enc (strip raw)")
  case False
  then show ?thesis by (simp add: iteration_unprintable)
next
  case printed: True
  show ?thesis
  proof (cases "length (split_comma (strip raw)) = 5")
    case False
    then show ?thesis using printed by (simp add: iteration_wrong_count)
  next
    case True
    with assms obtain t where "parse_reading (split_comma (strip raw)) = Inl (ValueError t)"
      using parse_reading_fails [of "split_comma (strip raw)"] by blast
    with True printed show ?thesis by (simp add: iteration_parse_error)
  qed
qed

text \<open>
  The three-field line of the specification's scenario, and a five-field line whose third
  token is no number, both after a reading has been published.
\<close>

theorem malformed_line_keeps_snapshot_witness:
  "length (split_comma (strip ''45,12.5,60.2'')) \<noteq> 5
   \<and> latest_data (iteration utf8_stdout (Line ''45,12.5,60.2'')
         (iteration utf8_stdout (Line ''45,12.5,60.2,22.1,71.8'') initial_state))
       = latest_data (iteration utf8_stdout (Line ''45,12.5,60.2,22.1,71.8'') initial_state)
   \<and> length (split_comma (strip ''46,12.5,abc,22.1,71.8'')) = 5
   \<and> py_float (split_comma (strip ''46,12.5,abc,22.1,71.8'') ! 2) = None
   \<and> latest_data (iteration utf8_stdout (Line ''46,12.5,abc,22.1,71.8'')
         (iteration utf8_stdout (Line ''45,12.5,60.2,22.1,71.8'') initial_state))
       = latest_data (iteration utf8_stdout (Line ''45,12.5,60.2,22.1,71.8'') initial_state)"
proof -
  have n3: "length (split_comma (strip ''45,12.5,60.2'')) \<noteq> 5"
    by code_simp
  have n5: "length (split_comma (strip ''46,12.5,abc,22.1,71.8'')) = 5"
    by code_simp
  have bad: "py_float (split_comma (strip ''46,12.5,abc,22.1,71.8'') ! 2) = None"
    by code_simp
  show ?thesis
    using n3 n5 bad
      malformed_line_keeps_snapshot [of "''45,12.5,60.2''" utf8_stdout
        "iteration utf8_stdout (Line ''45,12.5,60.2,22.1,71.8'') initial_state"]
      malformed_line_keeps_snapshot [of "''46,12.5,abc,22.1,71.8''" utf8_stdout
        "iteration utf8_stdout (Line ''45,12.5,60.2,22.1,71.8'') initial_state"]
    by blast
qed

subsection \<open>Which malformed lines are followed by the pause\<close>

text \<open>
  Claim C3, as stated: after every malformed line the loop goes on without the one-second
  pause. This fails for a line of five tokens with a token that is no number: the
  \<open>ValueError\<close> of the conversion is caught by the one \<open>except Exception\<close> of the loop,
  which sleeps one second. The line \<open>x,12.5,60.2,22.1,71.8\<close> shows it. It also fails for
  a line with a wrong token count that \<open>stdout\<close> cannot encode, such as \<open>45\<close>, no-break
  space, \<open>,1\<close> on an ASCII \<open>stdout\<close>: the \<open>print\<close> of the received line raises in the
  same \<open>try\<close>.
\<close>

theorem malformed_line_pause_counterexample:
  "length (split_comma (strip ''x,12.5,60.2,22.1,71.8'')) = 5
   \<and> py_int (split_comma (strip ''x,12.5,60.2,22.1,71.8'') ! 0) = None
   \<and> added utf8_stdout (Line ''x,12.5,60.2,22.1,71.8'') initial_state =
       [Print_received ''x,12.5,60.2,22.1,71.8'', Print_serial_error (ValueError ''x''), Sleep 1]
   \<and> slept (added utf8_stdout (Line ''x,12.5,60.2,22.1,71.8'') initial_state) = 1
   \<and> length (split_comma (strip (''45'' @ [CHR 0xA0] @ '',1''))) = 2
   \<and> added ascii_stdout (Line (''45'' @ [CHR 0xA0] @ '',1'')) initial_state =
       [Print_serial_error UnicodeEncodeError, Sleep 1]
   \<and> slept (added ascii_stdout (Line (''45'' @ [CHR 0xA0] @ '',1'')) initial_state) = 1"
proof -
  have 1: "length (split_comma (strip ''x,12.5,60.2,22.1,71.8'')) = 5"
    by code_simp
  have 2: "py_int (split_comma (strip ''x,12.5,60.2,22.1,71.8'') ! 0) = None"
    by code_simp
  have 3: "added utf8_stdout (Line ''x,12.5,60.2,22.1,71.8'') initial_state =
       [Print_received ''x,12.5,60.2,22.1,71.8'', Print_serial_error (ValueError ''x''), Sleep 1]"
    by code_simp
  have 4: "slept (added utf8_stdout (Line ''x,12.5,60.2,22.1,71.8'') initial_state) = 1"
    unfolding 3 by simp
  have 5: "length (split_comma (strip (''45'' @ [CHR 0xA0] @ '',1''))) = 2"
    by code_simp
  have 6: "added ascii_stdout (Line (''45'' @ [CHR 0xA0] @ '',1'')) initial_state =
       [Print_serial_error UnicodeEncodeError, Sleep 1]"
    by code_simp
  have 7: "slept (added ascii_stdout (Line (''45'' @ [CHR 0xA0] @ '',1'')) initial_state) = 1"
    unfolding 6 by simp
  show ?thesis using 1 2 3 4 5 6 7 by (intro conjI)
qed

text \<open>
  Claim C3, amended. A line whose token count is not five, and which \<open>stdout\<close> can encode,
  is followed by no pause: the pass only prints the line. A line of five tokens with a
  token that \<open>int\<close> or \<open>float\<close> refuses is followed by the printed error and the one-second
  pause, as a device error is. A line that \<open>stdout\<close> cannot encode is followed by the
  printed error and the one-second pause, whatever its tokens.
\<close>

theorem malformed_line_pause:
  "(can_print enc (strip raw) \<and> length (split_comma (strip raw)) \<noteq> 5 \<longrightarrow>
      added enc (Line raw) s = [Print_received (strip raw)]
      \<and> slept (added enc (Line raw) s) = 0)
   \<and> (length (split_comma (strip raw)) = 5
        \<and> (py_int (split_comma (strip raw) ! 0) = None
           \<or> py_float (split_comma (strip raw) ! 1) = None
           \<or> py_float (split_comma (strip raw) ! 2) = None
           \<or> py_float (split_comma (strip raw) ! 3) = None
           \<or> py_float (split_comma (strip raw) ! 4) = None) \<longrightarrow>
      (can_print enc (strip raw) \<longrightarrow>
        (\<exists>t. added enc (Line raw) s =
          [Print_received (strip raw), Print_serial_error (ValueError t), Sleep 1]))
      \<and> slept (added enc (Line raw) s) = 1)
   \<and> (\<not> can_print enc (strip raw) \<longrightarrow>
      added enc (Line raw) s = [Print_serial_error UnicodeEncodeError, Sleep 1]
      \<and> slept (added enc (Line raw) s) = 1)"
proof -
  have unprintable: "added enc (Line raw) s = [Print_serial_error UnicodeEncodeError, Sleep 1]
      \<and> slept (added enc (Line raw) s) = 1" if "\<not> can_print enc (strip raw)"
  proof -
    have "iteration enc (Line raw) s = handler UnicodeEncodeError s"
      using that by (rule iteration_unprintable)
    then have "added enc (Line raw) s = [Print_serial_error UnicodeEncodeError, Sleep 1]"
      by (simp add: added_def)
    then show ?thesis by simp
  qed
  have short: "added enc (Line raw) s = [Print_received (strip raw)]
      \<and> slept (added enc (Line raw) s) = 0"
    if "can_print enc (strip raw)" "length (split_comma (strip raw)) \<noteq> 5"
  proof -
    have "iteration enc (Line raw) s = emit (Print_received (strip raw)) s"
      using that by (rule iteration_wrong_count)
    then have "added enc (Line raw) s = [Print_received (strip raw)]"
      by (simp add: added_def)
    then show ?thesis by simp
  qed
  have refused: "(can_print enc (strip raw) \<longrightarrow>
        (\<exists>t. added enc (Line raw) s =
          [Print_received (strip raw), Print_serial_error (ValueError t), Sleep 1]))
      \<and> slept (added enc (Line raw) s) = 1"
    if len: "length (split_comma (strip raw)) = 5"
      and bad: "py_int (split_comma (strip raw) ! 0) = None
           \<or> py_float (split_comma (strip raw) ! 1) = None
           \<or> py_float (split_comma (strip raw) ! 2) = None
           \<or> py_float (split_comma (strip raw) ! 3) = None
           \<or> py_float (split_comma (strip raw) ! 4) = None"
  proof (cases "can_print enc (strip raw)")
    case False
    then show ?thesis using unprintable by simp
  next
    case True
    obtain t where t: "parse_reading (split_comma (strip raw)) = Inl (ValueError t)"
      using bad parse_reading_fails [of "split_comma (strip raw)"] by blast
    have "iteration enc (Line raw) s =
        handler (ValueError t) (emit (Print_received (strip raw)) s)"
      using True len t by (rule iteration_parse_error)
    then have eq: "added enc (Line raw) s =
        [Print_received (strip raw), Print_serial_error (ValueError t), Sleep 1]"
      by (simp add: added_def)
    have "slept (added enc (Line raw) s) = 1"
      unfolding eq by simp
    with eq show ?thesis by blast
  qed
  show ?thesis
    using unprintable short refused by blast
qed

theorem malformed_line_pause_witness:
  "can_print ascii_stdout (strip ''45,12.5,60.2'')
   \<and> length (split_comma (strip ''45,12.5,60.2'')) \<noteq> 5
   \<and> added ascii_stdout (Line ''45,12.5,60.2'') initial_state
       = [Print_received (strip ''45,12.5,60.2'')]
   \<and> slept (added ascii_stdout (Line ''45,12.5,60.2'') initial_state) = 0
   \<and> length (split_comma (strip ''45,12.5,60.2,22.1,hot'')) = 5
   \<and> py_float (split_comma (strip ''45,12.5,60.2,22.1,hot'') ! 4) = None
   \<and> slept (added ascii_stdout (Line ''45,12.5,60.2,22.1,hot'') initial_state) = 1
   \<and> \<not> can_print ascii_stdout (strip (''45,12.5'' @ [CHR 0xE9]))
   \<and> slept (added ascii_stdout (Line (''45,12.5'' @ [CHR 0xE9])) initial_state) = 1"
proof -
  have pr: "can_print ascii_stdout (strip ''45,12.5,60.2'')"
    by code_simp
  have n3: "length (split_comma (strip ''45,12.5,60.2'')) \<noteq> 5"
    by code_simp
  have n5: "length (split_comma (strip ''45,12.5,60.2,22.1,hot'')) = 5"
    by code_simp
  have bad: "py_float (split_comma (strip ''45,12.5,60.2,22.1,hot'') ! 4) = None"
    by code_simp
  have np: "\<not> can_print ascii_stdout (strip (''45,12.5'' @ [CHR 0xE9]))"
    by code_simp
  show ?thesis
    using pr n3 n5 bad np
      malformed_line_pause [of ascii_stdout "''45,12.5,60.2''" initial_state]
      malformed_line_pause [of ascii_stdout "''45,12.5,60.2,22.1,hot''" initial_state]
      malformed_line_pause [of ascii_stdout "''45,12.5'' @ [CHR 0xE9]" initial_state]
    by blast
qed

subsection \<open>The dictionary is replaced whole\<close>

text \<open>
  Claim C4. After a pass of the loop, \<open>latest_data\<close> is either the dictionary it was before
  the pass, or the dictionary of the five values parsed from the line of this pass: the
  five conversions are evaluated first and the name is bound once, to the finished
  dictionary, so no state holds values of both.
\<close>

theorem snapshot_old_or_new:
  "latest_data (iteration enc ev s) = latest_data s
   \<or> (\<exists>raw a d h c f.
         ev = Line raw
         \<and> length (split_comma (strip raw)) = 5
         \<and> py_int (split_comma (strip raw) ! 0) = Some a
         \<and> py_float (split_comma (strip raw) ! 1) = Some d
         \<and> py_float (split_comma (strip raw) ! 2) = Some h
         \<and> py_float (split_comma (strip raw) ! 3) = Some c
         \<and> py_float (split_comma (strip raw) ! 4) = Some f
         \<and> latest_data (iteration enc ev s) =
             [(''angle'', PyInt a), (''distance'', PyFloat d), (''humidity'', PyFloat h),
              (''temperatureC'', PyFloat c), (''temperatureF'', PyFloat f)])"
proof (cases enc ev s rule: iteration_cases)
  case (same es)
  then show ?thesis by simp
next
  case (publish raw r)
  from parse_reading_Inr [OF publish(4)] obtain a d h c f where
    "py_int (split_comma (strip raw) ! 0) = Some a"
    "py_float (split_comma (strip raw) ! 1) = Some d"
    "py_float (split_comma (strip raw) ! 2) = Some h"
    "py_float (split_comma (strip raw) ! 3) = Some c"
    "py_float (split_comma (strip raw) ! 4) = Some f"
    "r = reading (PyInt a) (PyFloat d) (PyFloat h) (PyFloat c) (PyFloat f)"
    by blast
  with publish show ?thesis
    unfolding reading_def by blast
qed

text \<open>
  A line that fails at its last token, after four conversions have succeeded, leaves all
  five old values; a good line replaces all five.
\<close>

theorem snapshot_old_or_new_witness:
  "latest_data (iteration utf8_stdout (Line ''90,1.5,2.5,3.5,warm'') initial_state)
     = latest_data initial_state
   \<and> latest_data (iteration utf8_stdout (Line ''90,1.5,2.5,3.5,4.5'') initial_state) =
       [(''angle'', PyInt 90), (''distance'', PyFloat (Dec False 15 (- 1))),
        (''humidity'', PyFloat (Dec False 25 (- 1))),
        (''temperatureC'', PyFloat (Dec False 35 (- 1))),
        (''temperatureF'', PyFloat (Dec False 45 (- 1)))]"
proof -
  have old: "\<not> (\<exists>raw. Line ''90,1.5,2.5,3.5,warm'' = Line raw
      \<and> length (split_comma (strip raw)) = 5
      \<and> (\<exists>f. py_float (split_comma (strip raw) ! 4) = Some f))"
  proof -
    have "py_float (split_comma (strip ''90,1.5,2.5,3.5,warm'') ! 4) = None"
      by code_simp
    then show ?thesis by simp
  qed
  have 1: "latest_data (iteration utf8_stdout (Line ''90,1.5,2.5,3.5,warm'') initial_state)
      = latest_data initial_state"
    using snapshot_old_or_new [of utf8_stdout "Line ''90,1.5,2.5,3.5,warm''" initial_state] old
    by blast
  have new: "latest_data (iteration utf8_stdout (Line ''90,1.5,2.5,3.5,4.5'') initial_state) =
       [(''angle'', PyInt 90), (''distance'', PyFloat (Dec False 15 (- 1))),
        (''humidity'', PyFloat (Dec False 25 (- 1))),
        (''temperatureC'', PyFloat (Dec False 35 (- 1))),
        (''temperatureF'', PyFloat (Dec False 45 (- 1)))]"
    by code_simp
  show ?thesis using 1 new by blast
qed

subsection \<open>Device errors\<close>

text \<open>
  Claim C5. When a pass meets a device error (\<open>ser.in_waiting\<close> raises, \<open>ser.readline()\<close>
  raises, or the bytes do not decode), \<open>latest_data\<close> is unchanged by the pass, and the pass
  prints the error and sleeps one second, which comes before the next pass reads.
\<close>

theorem device_error_pause:
  assumes "ev = In_waiting_raises \<or> ev = Readline_raises \<or> ev = Decode_raises"
  shows "latest_data (iteration enc ev s) = latest_data s
    \<and> (\<exists>e. added enc ev s = [Print_serial_error e, Sleep 1])
    \<and> slept (added enc ev s) = 1
    \<and> run enc (ev # evs) s = run enc evs (iteration enc ev s)"
  using assms by (auto simp: iteration_def added_def)

theorem device_error_pause_witness:
  "latest_data (iteration ascii_stdout Readline_raises initial_state) = latest_data initial_state
    \<and> (\<exists>e. added ascii_stdout Readline_raises initial_state = [Print_serial_error e, Sleep 1])
    \<and> slept (added ascii_stdout Readline_raises initial_state) = 1
    \<and> run ascii_stdout [Readline_raises, Nothing_waiting] initial_state
        = run ascii_stdout [Nothing_waiting] (iteration ascii_stdout Readline_raises initial_state)"
  using device_error_pause [of Readline_raises ascii_stdout initial_state "[Nothing_waiting]"]
  by blast

subsection \<open>The initial dictionary, and the loop without a port\<close>

lemma run_no_publish:
  assumes "\<forall>r. Print_parsed r \<notin> set (drop (length (effects s)) (effects (run enc evs s)))"
  shows "latest_data (run enc evs s) = latest_data s"
  using assms
proof (induction evs arbitrary: s)
  case Nil
  show ?case by simp
next
  case (Cons ev evs)
  let ?s1 = "iteration enc ev s"
  obtain es2 where es2: "effects (run enc evs ?s1) = effects ?s1 @ es2"
    using run_effects_prefix by blast
  show ?case
  proof (cases enc ev s rule: iteration_cases)
    case (same es)
    have "drop (length (effects s)) (effects (run enc evs ?s1)) = es @ es2"
      using es2 same(2) by simp
    moreover have "drop (length (effects ?s1)) (effects (run enc evs ?s1)) = es2"
      using es2 by simp
    ultimately have "\<forall>r. Print_parsed r \<notin> set (drop (length (effects ?s1)) (effects (run enc evs ?s1)))"
      using Cons.prems by simp
    then have "latest_data (run enc evs ?s1) = latest_data ?s1"
      by (rule Cons.IH)
    then show ?thesis using same(1) by simp
  next
    case (publish raw r)
    have "drop (length (effects s)) (effects (run enc evs ?s1))
        = [Print_received (strip raw), Print_parsed r] @ es2"
      using es2 publish(6) by simp
    then have "Print_parsed r \<in> set (drop (length (effects s)) (effects (run enc (ev # evs) s)))"
      by simp
    then show ?thesis using Cons.prems by blast
  qed
qed

text \<open>
  Claim C6. In the initial state the accessor returns the dictionary with the value 0 under
  each of the five keys, and it still does after any passes of the loop in which no
  reading was published. When \<open>ser\<close> is \<open>None\<close>, \<open>read_serial\<close> returns at once: whatever
  the port would have sent, the state is the one it was called in, so the accessor returns
  the initial dictionary for ever.
\<close>

theorem initial_reading_and_no_device:
  "fst (get_data initial_state) =
     [(''angle'', PyInt 0), (''distance'', PyInt 0), (''humidity'', PyInt 0),
      (''temperatureC'', PyInt 0), (''temperatureF'', PyInt 0)]
   \<and> ((\<forall>r. Print_parsed r \<notin> set (effects (run enc evs initial_state))) \<longrightarrow>
        fst (get_data (run enc evs initial_state)) = fst (get_data initial_state))
   \<and> read_serial None enc evs s = s
   \<and> fst (get_data (read_serial None enc evs initial_state)) = fst (get_data initial_state)"
proof (intro conjI impI)
  show "fst (get_data initial_state) =
     [(''angle'', PyInt 0), (''distance'', PyInt 0), (''humidity'', PyInt 0),
      (''temperatureC'', PyInt 0), (''temperatureF'', PyInt 0)]"
    by (simp add: get_data_def initial_state_def reading_def)
next
  assume "\<forall>r. Print_parsed r \<notin> set (effects (run enc evs initial_state))"
  then have "\<forall>r. Print_parsed r \<notin>
      set (drop (length (effects initial_state)) (effects (run enc evs initial_state)))"
    by (simp add: initial_state_def)
  then have "latest_data (run enc evs initial_state) = latest_data initial_state"
    by (rule run_no_publish)
  then show "fst (get_data (run enc evs initial_state)) = fst (get_data initial_state)"
    by (simp add: get_data_def)
next
  show "read_serial None enc evs s = s"
    by (simp add: read_serial_def)
  then show "fst (get_data (read_serial None enc evs initial_state)) = fst (get_data initial_state)"
    by (simp add: read_serial_def)
qed

text \<open>
  Three passes without a publication (a short line, a device error, an idle port), and
  a good line offered to a loop that has no port.
\<close>

theorem initial_reading_and_no_device_witness:
  "(\<forall>r. Print_parsed r \<notin>
        set (effects (run ascii_stdout [Line ''45,12.5'', Decode_raises, Nothing_waiting] initial_state)))
   \<and> fst (get_data (run ascii_stdout [Line ''45,12.5'', Decode_raises, Nothing_waiting] initial_state)) =
       [(''angle'', PyInt 0), (''distance'', PyInt 0), (''humidity'', PyInt 0),
        (''temperatureC'', PyInt 0), (''temperatureF'', PyInt 0)]
   \<and> fst (get_data (read_serial None ascii_stdout [Line ''45,12.5,60.2,22.1,71.8''] initial_state)) =
       [(''angle'', PyInt 0), (''distance'', PyInt 0), (''humidity'', PyInt 0),
        (''temperatureC'', PyInt 0), (''temperatureF'', PyInt 0)]"
proof -
  have eff: "effects (run ascii_stdout [Line ''45,12.5'', Decode_raises, Nothing_waiting] initial_state) =
      [Print_received ''45,12.5'', Print_serial_error UnicodeDecodeError, Sleep 1]"
    by code_simp
  have none: "\<forall>r. Print_parsed r \<notin>
        set (effects (run ascii_stdout [Line ''45,12.5'', Decode_raises, Nothing_waiting] initial_state))"
    unfolding eff by simp
  show ?thesis
    using none
      initial_reading_and_no_device
        [of ascii_stdout "[Line ''45,12.5'', Decode_raises, Nothing_waiting]" initial_state]
      initial_reading_and_no_device
        [of ascii_stdout "[Line ''45,12.5,60.2,22.1,71.8'']" initial_state]
    by simp
qed

subsection \<open>Opening the port\<close>

text \<open>
  Claim C7, as stated: after opening the port the program waits exactly one second. The
  module sleeps two seconds after \<open>serial.Serial\<close>; the \<open>1\<close> of that statement is the read
  timeout of the port.
\<close>

theorem settle_delay_counterexample:
  "module_init [''WERKZEUG_RUN_MAIN'' \<mapsto> ''true''] True =
     Inr (Some \<lparr>port = ''/dev/cu.usbmodem2101'', baudrate = 115200, timeout = 1\<rparr>,
          [Open_serial ''/dev/cu.usbmodem2101'' 115200 1, Sleep 2])
   \<and> slept [Open_serial ''/dev/cu.usbmodem2101'' 115200 1, Sleep 2] \<noteq> 1"
  by (simp add: module_init_def)

text \<open>
  Claim C7, amended: when \<open>WERKZEUG_RUN_MAIN\<close> is \<open>'true'\<close> and the port opens, the program
  opens the fixed path \<open>/dev/cu.usbmodem2101\<close> at 115200 baud with a read timeout of one
  second, then sleeps two seconds, and only then starts the reader thread.
\<close>

theorem settle_delay:
  assumes "env ''WERKZEUG_RUN_MAIN'' = Some ''true''"
  shows "module_init env True =
     Inr (Some \<lparr>port = ''/dev/cu.usbmodem2101'', baudrate = 115200, timeout = 1\<rparr>,
          [Open_serial ''/dev/cu.usbmodem2101'' 115200 1, Sleep 2])
   \<and> main env True =
     Inr (Some \<lparr>port = ''/dev/cu.usbmodem2101'', baudrate = 115200, timeout = 1\<rparr>,
          [Open_serial ''/dev/cu.usbmodem2101'' 115200 1, Sleep 2, Thread_start, App_run])"
  using assms by (simp add: main_def module_init_def)

theorem settle_delay_witness:
  "[''WERKZEUG_RUN_MAIN'' \<mapsto> ''true''] ''WERKZEUG_RUN_MAIN'' = Some ''true''
   \<and> main [''WERKZEUG_RUN_MAIN'' \<mapsto> ''true''] True =
     Inr (Some \<lparr>port = ''/dev/cu.usbmodem2101'', baudrate = 115200, timeout = 1\<rparr>,
          [Open_serial ''/dev/cu.usbmodem2101'' 115200 1, Sleep 2, Thread_start, App_run])"
proof -
  have h: "[''WERKZEUG_RUN_MAIN'' \<mapsto> ''true''] ''WERKZEUG_RUN_MAIN'' = Some ''true''"
    by simp
  show ?thesis
    using h settle_delay [of "[''WERKZEUG_RUN_MAIN'' \<mapsto> ''true'']"] by blast
qed

subsection \<open>The accessor\<close>

text \<open>
  Claim C8. In any state, two calls of the accessor with no pass of the reader loop between
  them return the same dictionary, and the calls leave the state as it was.
\<close>

theorem accessor_idempotent:
  "fst (get_data (snd (get_data s))) = fst (get_data s) \<and> snd (get_data s) = s"
  by (simp add: get_data_def)

subsection \<open>The shape of the dictionary\<close>

lemma iteration_keys:
  assumes "map fst (latest_data s) =
      [''angle'', ''distance'', ''humidity'', ''temperatureC'', ''temperatureF'']"
  shows "map fst (latest_data (iteration enc ev s)) =
      [''angle'', ''distance'', ''humidity'', ''temperatureC'', ''temperatureF'']"
proof (cases enc ev s rule: iteration_cases)
  case (same es)
  then show ?thesis using assms by simp
next
  case (publish raw r)
  from parse_reading_Inr [OF publish(4)] obtain a d h c f where
    "r = reading (PyInt a) (PyFloat d) (PyFloat h) (PyFloat c) (PyFloat f)"
    by blast
  then show ?thesis using publish(5) by (simp add: reading_def)
qed

lemma run_keys:
  assumes "map fst (latest_data s) =
      [''angle'', ''distance'', ''humidity'', ''temperatureC'', ''temperatureF'']"
  shows "map fst (latest_data (run enc evs s)) =
      [''angle'', ''distance'', ''humidity'', ''temperatureC'', ''temperatureF'']"
  using assms by (induction evs arbitrary: s) (simp_all add: iteration_keys)

text \<open>
  Claim C10. In every state the reader loop can reach from the initial one, with or without
  a port, \<open>latest_data\<close> has exactly the keys angle, distance, humidity, temperatureC and
  temperatureF. In the initial state the five values are the integer 0. A pass that
  publishes (it prints \<open>Parsed\<close>) leaves an integer under angle and floats under the other
  four keys.
\<close>

theorem snapshot_shape:
  "map fst (latest_data (read_serial ser enc evs initial_state)) =
      [''angle'', ''distance'', ''humidity'', ''temperatureC'', ''temperatureF'']
   \<and> dom (map_of (latest_data (read_serial ser enc evs initial_state))) =
      {''angle'', ''distance'', ''humidity'', ''temperatureC'', ''temperatureF''}
   \<and> map snd (latest_data initial_state) = [PyInt 0, PyInt 0, PyInt 0, PyInt 0, PyInt 0]
   \<and> ((\<exists>r. Print_parsed r \<in> set (added enc ev s)) \<longrightarrow>
        (\<exists>a d h c f. latest_data (iteration enc ev s) =
           [(''angle'', PyInt a), (''distance'', PyFloat d), (''humidity'', PyFloat h),
            (''temperatureC'', PyFloat c), (''temperatureF'', PyFloat f)]))"
proof (intro conjI impI)
  have init: "map fst (latest_data initial_state) =
      [''angle'', ''distance'', ''humidity'', ''temperatureC'', ''temperatureF'']"
    by (simp add: initial_state_def reading_def)
  show keys: "map fst (latest_data (read_serial ser enc evs initial_state)) =
      [''angle'', ''distance'', ''humidity'', ''temperatureC'', ''temperatureF'']"
    using init by (cases ser) (simp_all add: read_serial_def run_keys)
  have "dom (map_of (latest_data (read_serial ser enc evs initial_state))) =
      set (map fst (latest_data (read_serial ser enc evs initial_state)))"
    by (simp add: dom_map_of_conv_image_fst)
  then show "dom (map_of (latest_data (read_serial ser enc evs initial_state))) =
      {''angle'', ''distance'', ''humidity'', ''temperatureC'', ''temperatureF''}"
    unfolding keys by simp
  show "map snd (latest_data initial_state) = [PyInt 0, PyInt 0, PyInt 0, PyInt 0, PyInt 0]"
    by (simp add: initial_state_def reading_def)
next
  assume pub: "\<exists>r. Print_parsed r \<in> set (added enc ev s)"
  show "\<exists>a d h c f. latest_data (iteration enc ev s) =
           [(''angle'', PyInt a), (''distance'', PyFloat d), (''humidity'', PyFloat h),
            (''temperatureC'', PyFloat c), (''temperatureF'', PyFloat f)]"
  proof (cases enc ev s rule: iteration_cases)
    case (same es)
    then have "added enc ev s = es" by (simp add: added_def)
    with same(3) pub show ?thesis by blast
  next
    case (publish raw r)
    from parse_reading_Inr [OF publish(4)] obtain a d h c f where
      "r = reading (PyInt a) (PyFloat d) (PyFloat h) (PyFloat c) (PyFloat f)"
      by blast
    then show ?thesis using publish(5) unfolding reading_def by blast
  qed
qed

theorem snapshot_shape_witness:
  "(\<exists>r. Print_parsed r \<in> set (added ascii_stdout (Line ''7,1,2,3,4'') initial_state))
   \<and> (\<exists>a d h c f. latest_data (iteration ascii_stdout (Line ''7,1,2,3,4'') initial_state) =
           [(''angle'', PyInt a), (''distance'', PyFloat d), (''humidity'', PyFloat h),
            (''temperatureC'', PyFloat c), (''temperatureF'', PyFloat f)])
   \<and> map fst (latest_data (read_serial (Some \<lparr>port = ''/dev/cu.usbmodem2101'',
          baudrate = 115200, timeout = 1\<rparr>) ascii_stdout [Line ''7,1,2,3,4'', Line ''junk''] initial_state)) =
      [''angle'', ''distance'', ''humidity'', ''temperatureC'', ''temperatureF'']"
proof -
  have "added ascii_stdout (Line ''7,1,2,3,4'') initial_state =
      [Print_received ''7,1,2,3,4'',
       Print_parsed [(''angle'', PyInt 7), (''distance'', PyFloat (Dec False 1 0)),
         (''humidity'', PyFloat (Dec False 2 0)), (''temperatureC'', PyFloat (Dec False 3 0)),
         (''temperatureF'', PyFloat (Dec False 4 0))]]"
    by code_simp
  then have pub: "\<exists>r. Print_parsed r \<in> set (added ascii_stdout (Line ''7,1,2,3,4'') initial_state)"
    by simp
  show ?thesis
    using pub
      snapshot_shape [of "Some \<lparr>port = ''/dev/cu.usbmodem2101'', baudrate = 115200, timeout = 1\<rparr>"
        ascii_stdout "[Line ''7,1,2,3,4'', Line ''junk'']" "Line ''7,1,2,3,4''" initial_state]
    by blast
qed

subsection \<open>What \<open>int\<close> and \<open>float\<close> accept beyond plain decimal literals\<close>

lemma strip_with_pad:
  assumes "\<forall>c\<in>set ws. sp c" and "\<forall>c\<in>set ws'. sp c"
  shows "strip_with sp (ws @ t @ ws') = strip_with sp t"
proof -
  have 1: "dropWhile sp (ws @ t @ ws') = dropWhile sp (t @ ws')"
    by (rule dropWhile_append2) (use assms(1) in simp)
  show ?thesis
  proof (cases "\<forall>c\<in>set t. sp c")
    case True
    then have "\<forall>c\<in>set (t @ ws'). sp c"
      using assms(2) by auto
    then have a: "dropWhile sp (t @ ws') = []"
      by (simp only: dropWhile_eq_Nil_conv)
    have b: "dropWhile sp t = []"
      using True by (simp only: dropWhile_eq_Nil_conv)
    show ?thesis
      unfolding strip_with_def 1 a b by (rule refl)
  next
    case False
    then obtain x where "x \<in> set t" "\<not> sp x" by blast
    then have "dropWhile sp (t @ ws') = dropWhile sp t @ ws'"
      by (rule dropWhile_append1)
    then have "rev (dropWhile sp (ws @ t @ ws')) = rev ws' @ rev (dropWhile sp t)"
      using 1 by simp
    moreover have "dropWhile sp (rev ws' @ rev (dropWhile sp t)) = dropWhile sp (rev (dropWhile sp t))"
      by (rule dropWhile_append2) (use assms(2) in simp)
    ultimately show ?thesis by (simp add: strip_with_def)
  qed
qed

lemma letter_plain:
  assumes "to_lower c \<in> set ''nanifty''"
  shows "\<not> num_isspace c" "c \<noteq> CHR ''_''" "\<not> is_digit c"
    "c \<noteq> CHR ''+''" "c \<noteq> CHR ''-''" "c \<noteq> CHR ''.''"
  using assms by (auto simp: to_lower_def num_isspace_def is_digit_def)

lemma strip_with_id:
  assumes "s \<noteq> []" "\<not> sp (hd s)" "\<not> sp (last s)"
  shows "strip_with sp s = s"
proof -
  have "dropWhile sp s = s" using assms by (cases s) auto
  moreover have "dropWhile sp (rev s) = rev s"
    using assms by (cases "rev s") (auto simp: last_rev[symmetric] simp del: last_rev)
  ultimately show ?thesis by (simp add: strip_with_def)
qed

lemma drop_underscores_id:
  assumes "CHR ''_'' \<notin> set s" "p \<noteq> CHR ''_''"
  shows "drop_underscores p s = Some s"
  using assms by (induction s arbitrary: p) auto

lemma py_float_word:
  assumes "w \<noteq> []" and "\<forall>c\<in>set w. to_lower c \<in> set ''nanifty''"
    and "sg = [] \<or> sg = ''+'' \<or> sg = ''-''"
  shows "py_float (sg @ w) =
    (if map to_lower w = ''inf'' \<or> map to_lower w = ''infinity'' then Some (Inf (sg = ''-''))
     else if map to_lower w = ''nan'' then Some NaN else None)"
proof -
  obtain c cs where w: "w = c # cs" using assms(1) by (cases w) auto
  have c: "\<not> num_isspace c" "c \<noteq> CHR ''_''" "\<not> is_digit c"
    "c \<noteq> CHR ''+''" "c \<noteq> CHR ''-''" "c \<noteq> CHR ''.''"
    using letter_plain [of c] assms(2) w by simp_all
  have l: "\<not> num_isspace (last (c # cs))"
    using letter_plain(1) [of "last w"] assms(1,2) w by simp
  have nu: "CHR ''_'' \<notin> set (c # cs)"
    using letter_plain(2) assms(2) w by blast
  have sp: "\<not> num_isspace (CHR ''+'')" "\<not> num_isspace (CHR ''-'')"
    by (simp_all add: num_isspace_def)
  have "\<not> num_isspace (hd (sg @ c # cs))" "\<not> num_isspace (last (sg @ c # cs))"
    "sg @ c # cs \<noteq> []"
    using assms(3) c l sp by auto
  then have 1: "strip_with num_isspace (sg @ c # cs) = sg @ c # cs"
    by (intro strip_with_id)
  have 2: "drop_underscores (CHR 0x00) (sg @ c # cs) = Some (sg @ c # cs)"
    using nu assms(3) by (intro drop_underscores_id) auto
  have 3: "take_sign (sg @ c # cs) = (sg = ''-'', c # cs)"
    using assms(3) c by auto
  have "py_float (sg @ c # cs) =
    (if map to_lower (c # cs) = ''inf'' \<or> map to_lower (c # cs) = ''infinity''
     then Some (Inf (sg = ''-''))
     else if map to_lower (c # cs) = ''nan'' then Some NaN else None)"
    unfolding py_float_def 1 2 using c by (simp add: 3 Let_def)
  then show ?thesis unfolding w .
qed

lemma py_int_pad:
  assumes "\<forall>c\<in>set ws. num_isspace c" and "\<forall>c\<in>set ws'. num_isspace c"
  shows "py_int (ws @ t @ ws') = py_int t" "py_float (ws @ t @ ws') = py_float t"
  using assms by (simp_all add: py_int_def py_float_def strip_with_pad)

lemma lower_word:
  assumes "map to_lower w = v" and "v \<noteq> []" and "set v \<subseteq> set ''nanifty''"
  shows "w \<noteq> []" and "\<forall>c\<in>set w. to_lower c \<in> set ''nanifty''"
proof -
  show "w \<noteq> []" using assms(1,2) by auto
  have "to_lower ` set w = set v" using assms(1) by auto
  then show "\<forall>c\<in>set w. to_lower c \<in> set ''nanifty''" using assms(3) by blast
qed

lemma digit_plain:
  assumes "is_digit c"
  shows "\<not> num_isspace c" "c \<noteq> CHR ''_''" "c \<noteq> CHR ''+''" "c \<noteq> CHR ''-''"
    "c \<noteq> CHR ''.''" "c \<noteq> CHR ''e''" "c \<noteq> CHR ''E''"
  using assms by (auto simp: num_isspace_def is_digit_def)

lemma take_sign_signed:
  assumes "sg = [] \<or> sg = ''+'' \<or> sg = ''-''" and "r \<noteq> []"
    and "hd r \<noteq> CHR ''+''" and "hd r \<noteq> CHR ''-''"
  shows "take_sign (sg @ r) = (sg = ''-'', r)"
  using assms by (cases r) auto

lemma py_int_signed:
  assumes sg: "sg = [] \<or> sg = ''+'' \<or> sg = ''-''"
    and ds: "ds \<noteq> []" "list_all is_digit ds" "length ds \<le> int_max_str_digits"
  shows "py_int (sg @ ds) =
     Some (if sg = ''-'' then - int (digits_val ds) else int (digits_val ds))"
proof -
  have dig: "\<forall>c\<in>set ds. is_digit c"
    using ds(2) by (simp add: list_all_iff)
  have hd: "is_digit (hd ds)" and last: "is_digit (last ds)"
    using dig ds(1) by simp_all
  have sp: "\<not> num_isspace (CHR ''+'')" "\<not> num_isspace (CHR ''-'')"
    by (simp_all add: num_isspace_def)
  have "hd (sg @ ds) = hd ds \<or> hd (sg @ ds) = CHR ''+'' \<or> hd (sg @ ds) = CHR ''-''"
    using sg by auto
  then have "\<not> num_isspace (hd (sg @ ds))"
    using sp hd digit_plain(1) by metis
  moreover have "\<not> num_isspace (last (sg @ ds))"
    using last digit_plain(1) ds(1) by simp
  ultimately have 1: "strip_with num_isspace (sg @ ds) = sg @ ds"
    using ds(1) by (intro strip_with_id) simp_all
  have "CHR ''_'' \<notin> set sg"
    using sg by auto
  moreover have "CHR ''_'' \<notin> set ds"
    using dig digit_plain(2) by blast
  ultimately have "CHR ''_'' \<notin> set (sg @ ds)"
    by simp
  then have 2: "drop_underscores (CHR 0x00) (sg @ ds) = Some (sg @ ds)"
    by (intro drop_underscores_id) simp_all
  have "hd ds \<noteq> CHR ''+''" "hd ds \<noteq> CHR ''-''"
    using hd digit_plain(3,4) by blast+
  then have 3: "take_sign (sg @ ds) = (sg = ''-'', ds)"
    using sg ds(1) by (intro take_sign_signed)
  have 4: "\<not> int_max_str_digits < length ds"
    using ds(3) by simp
  show ?thesis
    unfolding py_int_def 1 2 option.case 3 Let_def prod.case
    using ds(1,2) 4 by simp
qed

lemma dropWhile_before:
  assumes "z \<noteq> []" and "\<not> sp (hd z)"
  shows "dropWhile sp (x @ z) = dropWhile sp x @ z"
proof (induction x)
  case Nil
  obtain c cs where "z = c # cs" using assms(1) by (cases z) auto
  then show ?case using assms(2) by simp
next
  case (Cons a x)
  then show ?case by simp
qed

lemma strip_with_mid:
  assumes "m \<noteq> []" and "\<not> sp (hd m)" and "\<not> sp (last m)"
  shows "strip_with sp (x @ m @ y) = dropWhile sp x @ m @ rev (dropWhile sp (rev y))"
proof -
  have a: "dropWhile sp (x @ (m @ y)) = dropWhile sp x @ (m @ y)"
    using assms(1,2) by (intro dropWhile_before) simp_all
  have b: "dropWhile sp (rev y @ (rev m @ rev (dropWhile sp x)))
      = dropWhile sp (rev y) @ (rev m @ rev (dropWhile sp x))"
    using assms(1,3) by (intro dropWhile_before) (simp_all add: hd_rev)
  have "strip_with sp (x @ m @ y) = rev (dropWhile sp (rev (dropWhile sp x @ (m @ y))))"
    unfolding strip_with_def a by (rule refl)
  also have "\<dots> = rev (dropWhile sp (rev y @ (rev m @ rev (dropWhile sp x))))"
    by simp
  also have "\<dots> = rev (dropWhile sp (rev y) @ (rev m @ rev (dropWhile sp x)))"
    unfolding b by (rule refl)
  also have "\<dots> = dropWhile sp x @ m @ rev (dropWhile sp (rev y))"
    by simp
  finally show ?thesis .
qed

lemma drop_underscores_between:
  assumes "is_digit d1" and "is_digit d2"
  shows "drop_underscores p (x @ d1 # CHR ''_'' # d2 # y) = drop_underscores p (x @ d1 # d2 # y)"
proof (induction x arbitrary: p)
  case Nil
  have n: "d1 \<noteq> CHR ''_''" "d2 \<noteq> CHR ''_''"
    using assms digit_plain(2) by blast+
  have "drop_underscores p (d1 # CHR ''_'' # d2 # y)
      = map_option ((#) d1) (map_option ((#) d2) (drop_underscores d2 y))"
    using n assms by simp
  moreover have "drop_underscores p (d1 # d2 # y)
      = map_option ((#) d1) (map_option ((#) d2) (drop_underscores d2 y))"
    using n assms by simp
  ultimately show ?case by simp
next
  case (Cons c x)
  show ?case
    by (simp add: Cons.IH)
qed

lemma underscore_between:
  assumes "is_digit d1" and "is_digit d2"
  shows "py_int (x @ d1 # CHR ''_'' # d2 # y) = py_int (x @ d1 # d2 # y)"
    and "py_float (x @ d1 # CHR ''_'' # d2 # y) = py_float (x @ d1 # d2 # y)"
proof -
  let ?x = "dropWhile num_isspace x" and ?y = "rev (dropWhile num_isspace (rev y))"
  have ns: "\<not> num_isspace d1" "\<not> num_isspace d2"
    using assms digit_plain(1) by blast+
  have "strip_with num_isspace (x @ [d1, CHR ''_'', d2] @ y) = ?x @ [d1, CHR ''_'', d2] @ ?y"
    using ns by (intro strip_with_mid) simp_all
  then have 1: "strip_with num_isspace (x @ d1 # CHR ''_'' # d2 # y) = ?x @ d1 # CHR ''_'' # d2 # ?y"
    by simp
  have "strip_with num_isspace (x @ [d1, d2] @ y) = ?x @ [d1, d2] @ ?y"
    using ns by (intro strip_with_mid) simp_all
  then have 2: "strip_with num_isspace (x @ d1 # d2 # y) = ?x @ d1 # d2 # ?y"
    by simp
  have 3: "drop_underscores (CHR 0x00) (?x @ d1 # CHR ''_'' # d2 # ?y)
      = drop_underscores (CHR 0x00) (?x @ d1 # d2 # ?y)"
    using assms by (rule drop_underscores_between)
  show "py_int (x @ d1 # CHR ''_'' # d2 # y) = py_int (x @ d1 # d2 # y)"
    unfolding py_int_def 1 2 3 by (rule refl)
  show "py_float (x @ d1 # CHR ''_'' # d2 # y) = py_float (x @ d1 # d2 # y)"
    unfolding py_float_def 1 2 3 by (rule refl)
qed

lemma exponent_literal:
  assumes ec: "ec = CHR ''e'' \<or> ec = CHR ''E''"
    and esg: "esg = [] \<or> esg = ''+'' \<or> esg = ''-''"
    and ds: "ds \<noteq> []" "list_all is_digit ds"
  shows "exponent (ec # esg @ ds) =
     Some (if esg = ''-'' then - int (digits_val ds) else int (digits_val ds))"
proof -
  have "is_digit (hd ds)"
    using ds by (cases ds) simp_all
  then have "hd ds \<noteq> CHR ''+''" "hd ds \<noteq> CHR ''-''"
    using digit_plain(3,4) by blast+
  then have 1: "take_sign (esg @ ds) = (esg = ''-'', ds)"
    using esg ds(1) by (intro take_sign_signed)
  show ?thesis
    unfolding exponent_def list.case using ec ds by (simp add: 1)
qed

lemma takeWhile_digits:
  assumes "list_all is_digit ds" and "r = [] \<or> \<not> is_digit (hd r)"
  shows "takeWhile is_digit (ds @ r) = ds" and "dropWhile is_digit (ds @ r) = r"
proof -
  have d: "\<forall>c\<in>set ds. is_digit c"
    using assms(1) by (simp add: list_all_iff)
  have r: "takeWhile is_digit r = []" "dropWhile is_digit r = r"
    using assms(2) by (cases r; simp)+
  show "takeWhile is_digit (ds @ r) = ds"
    using d r by (simp add: takeWhile_append2)
  show "dropWhile is_digit (ds @ r) = r"
    using d r by (simp add: dropWhile_append2)
qed

lemma py_float_decimal:
  assumes sg: "sg = [] \<or> sg = ''+'' \<or> sg = ''-''"
    and ip: "list_all is_digit ip" and fp: "list_all is_digit fp"
    and some: "ip \<noteq> [] \<or> fp \<noteq> []"
    and dp: "dp = [] \<and> fp = [] \<or> dp = CHR ''.'' # fp"
    and ex: "exponent ex = Some e" "ex = [] \<or> hd ex = CHR ''e'' \<or> hd ex = CHR ''E''"
      "\<forall>c\<in>set ex. \<not> num_isspace c \<and> c \<noteq> CHR ''_''"
  shows "py_float (sg @ ip @ dp @ ex) =
     Some (Dec (sg = ''-'') (digits_val (ip @ fp)) (e - int (length fp)))"
proof -
  let ?b = "ip @ dp @ ex"
  have dip: "\<forall>c\<in>set ip. is_digit c" and dfp: "\<forall>c\<in>set fp. is_digit c"
    using ip fp by (simp_all add: list_all_iff)
  have dot: "\<not> num_isspace (CHR ''.'')" "\<not> is_digit (CHR ''.'')"
    and sp: "\<not> num_isspace (CHR ''+'')" "\<not> num_isspace (CHR ''-'')"
    and ee: "\<not> is_digit (CHR ''e'')" "\<not> is_digit (CHR ''E'')"
    by (simp_all add: num_isspace_def is_digit_def)
  have b: "?b \<noteq> []"
    using some dp by auto
  have hdb: "is_digit (hd ?b) \<or> hd ?b = CHR ''.''"
  proof (cases ip)
    case Nil
    then show ?thesis using some dp by auto
  next
    case (Cons c cs)
    then show ?thesis using dip by simp
  qed
  have plain: "\<forall>c\<in>set ?b. \<not> num_isspace c \<and> c \<noteq> CHR ''_''"
  proof
    fix c assume "c \<in> set ?b"
    then consider "c \<in> set ip" | "c \<in> set dp" | "c \<in> set ex" by auto
    then show "\<not> num_isspace c \<and> c \<noteq> CHR ''_''"
    proof cases
      case 1
      then show ?thesis using dip digit_plain(1,2) by blast
    next
      case 2
      then have "c = CHR ''.'' \<or> c \<in> set fp" using dp by auto
      then show ?thesis using dfp digit_plain(1,2) dot(1) by auto
    next
      case 3
      then show ?thesis using ex(3) by blast
    qed
  qed
  have "hd (sg @ ?b) = hd ?b \<or> hd (sg @ ?b) = CHR ''+'' \<or> hd (sg @ ?b) = CHR ''-''"
    using sg by auto
  moreover have "\<not> num_isspace (hd ?b)"
    using plain hd_in_set [OF b] by blast
  ultimately have h: "\<not> num_isspace (hd (sg @ ?b))"
    using sp by metis
  have "last (sg @ ?b) = last ?b"
    using b by simp
  then have l: "\<not> num_isspace (last (sg @ ?b))"
    using plain last_in_set [OF b] by metis
  have 1: "strip_with num_isspace (sg @ ?b) = sg @ ?b"
    using h l b by (intro strip_with_id) simp_all
  have "CHR ''_'' \<notin> set sg"
    using sg by auto
  then have "CHR ''_'' \<notin> set (sg @ ?b)"
    using plain by auto
  then have 2: "drop_underscores (CHR 0x00) (sg @ ?b) = Some (sg @ ?b)"
    by (intro drop_underscores_id) simp_all
  have "hd ?b \<noteq> CHR ''+''" "hd ?b \<noteq> CHR ''-''"
    using hdb digit_plain(3,4) by auto
  then have 3: "take_sign (sg @ ?b) = (sg = ''-'', ?b)"
    using sg b by (intro take_sign_signed)
  have nd_ex: "ex = [] \<or> \<not> is_digit (hd ex)"
    using ex(2) ee by auto
  have nd_tail: "dp @ ex = [] \<or> \<not> is_digit (hd (dp @ ex))"
    using dp nd_ex dot(2) by auto
  have 4: "takeWhile is_digit ?b = ip" "dropWhile is_digit ?b = dp @ ex"
    using ip nd_tail by (rule takeWhile_digits)+
  have 5: "(case dp @ ex of
              [] \<Rightarrow> ([], dp @ ex)
            | c # cs \<Rightarrow>
                if c = CHR ''.'' then (takeWhile is_digit cs, dropWhile is_digit cs)
                else ([], dp @ ex)) = (fp, ex)"
  proof (cases "dp = []")
    case True
    then have "fp = []" using dp by simp
    moreover have "ex = [] \<or> hd ex \<noteq> CHR ''.''" using ex(2) by auto
    ultimately show ?thesis using True by (cases ex) auto
  next
    case False
    then have "dp = CHR ''.'' # fp" using dp by simp
    then show ?thesis using takeWhile_digits [OF fp nd_ex] by simp
  qed
  have 6: "\<not> (ip = [] \<and> fp = [])"
    using some by simp
  show ?thesis
    unfolding py_float_def 1 2 option.case Let_def 3 prod.case 4 5
    using 6 ex(1) by simp
qed

lemma py_float_literal:
  assumes sg: "sg = [] \<or> sg = ''+'' \<or> sg = ''-''"
    and ip: "list_all is_digit ip" and fp: "list_all is_digit fp"
    and some: "ip \<noteq> [] \<or> fp \<noteq> []"
    and ec: "ec = CHR ''e'' \<or> ec = CHR ''E''"
    and esg: "esg = [] \<or> esg = ''+'' \<or> esg = ''-''"
    and ds: "ds \<noteq> []" "list_all is_digit ds"
  shows "py_float (sg @ ip @ CHR ''.'' # fp @ ec # esg @ ds) =
      Some (Dec (sg = ''-'') (digits_val (ip @ fp))
        ((if esg = ''-'' then - int (digits_val ds) else int (digits_val ds)) - int (length fp)))"
    and "ip \<noteq> [] \<Longrightarrow> py_float (sg @ ip @ ec # esg @ ds) =
      Some (Dec (sg = ''-'') (digits_val ip)
        (if esg = ''-'' then - int (digits_val ds) else int (digits_val ds)))"
    and "py_float (sg @ ip @ CHR ''.'' # fp) =
      Some (Dec (sg = ''-'') (digits_val (ip @ fp)) (- int (length fp)))"
    and "ip \<noteq> [] \<Longrightarrow> py_float (sg @ ip) = Some (Dec (sg = ''-'') (digits_val ip) 0)"
proof -
  let ?ex = "ec # esg @ ds" and ?e = "if esg = ''-'' then - int (digits_val ds) else int (digits_val ds)"
  have e1: "exponent ?ex = Some ?e"
    using ec esg ds by (rule exponent_literal)
  have e2: "?ex = [] \<or> hd ?ex = CHR ''e'' \<or> hd ?ex = CHR ''E''"
    using ec by simp
  have pe: "\<not> num_isspace (CHR ''e'')" "\<not> num_isspace (CHR ''E'')"
    "\<not> num_isspace (CHR ''+'')" "\<not> num_isspace (CHR ''-'')"
    by (simp_all add: num_isspace_def)
  have dds: "\<forall>c\<in>set ds. is_digit c"
    using ds(2) by (simp add: list_all_iff)
  have e3: "\<forall>c\<in>set ?ex. \<not> num_isspace c \<and> c \<noteq> CHR ''_''"
  proof
    fix c assume "c \<in> set ?ex"
    then consider "c = ec" | "c \<in> set esg" | "c \<in> set ds" by auto
    then show "\<not> num_isspace c \<and> c \<noteq> CHR ''_''"
    proof cases
      case 1
      then show ?thesis using ec pe by auto
    next
      case 2
      then have "c = CHR ''+'' \<or> c = CHR ''-''" using esg by auto
      then show ?thesis using pe by auto
    next
      case 3
      then show ?thesis using dds digit_plain(1,2) by blast
    qed
  qed
  have n1: "exponent [] = Some 0"
    by (simp add: exponent_def)
  have n2: "[] = [] \<or> hd [] = CHR ''e'' \<or> hd [] = CHR ''E''"
    by simp
  have n3: "\<forall>c\<in>set []. \<not> num_isspace c \<and> c \<noteq> CHR ''_''"
    by simp
  have nil: "list_all is_digit []"
    by simp
  show "py_float (sg @ ip @ CHR ''.'' # fp @ ec # esg @ ds) =
      Some (Dec (sg = ''-'') (digits_val (ip @ fp)) (?e - int (length fp)))"
    using py_float_decimal [OF sg ip fp some _ e1 e2 e3, of "CHR ''.'' # fp"] by simp
  show "py_float (sg @ ip @ CHR ''.'' # fp) =
      Some (Dec (sg = ''-'') (digits_val (ip @ fp)) (- int (length fp)))"
    using py_float_decimal [OF sg ip fp some _ n1 n2 n3, of "CHR ''.'' # fp"] by simp
  show "py_float (sg @ ip @ ec # esg @ ds) = Some (Dec (sg = ''-'') (digits_val ip) ?e)"
    if "ip \<noteq> []"
    using py_float_decimal [OF sg ip nil _ _ e1 e2 e3, of "[]"] that by simp
  show "py_float (sg @ ip) = Some (Dec (sg = ''-'') (digits_val ip) 0)" if "ip \<noteq> []"
    using py_float_decimal [OF sg ip nil _ _ n1 n2 n3, of "[]"] that by simp
qed

lemma mem_dropWhile:
  assumes "c \<in> set xs" and "\<not> P c"
  shows "c \<in> set (dropWhile P xs)"
  using assms by (induction xs) auto

lemma mem_strip_with:
  assumes "c \<in> set s" and "\<not> sp c"
  shows "c \<in> set (strip_with sp s)"
proof -
  have "c \<in> set (rev (dropWhile sp s))"
    using assms by (simp add: mem_dropWhile)
  then have "c \<in> set (dropWhile sp (rev (dropWhile sp s)))"
    using assms(2) by (rule mem_dropWhile)
  then show ?thesis by (simp add: strip_with_def)
qed

lemma mem_drop_underscores:
  assumes "drop_underscores p u = Some s" and "c \<in> set u" and "c \<noteq> CHR ''_''"
  shows "c \<in> set s"
  using assms
proof (induction u arbitrary: p s)
  case Nil
  then show ?case by simp
next
  case (Cons a u)
  show ?case
  proof (cases "a = CHR ''_''")
    case True
    then have "drop_underscores a u = Some s" and "c \<in> set u"
      using Cons.prems by (auto split: if_splits)
    then show ?thesis using Cons.IH Cons.prems(3) by blast
  next
    case False
    then obtain s' where s': "drop_underscores a u = Some s'" "s = a # s'"
      using Cons.prems(1) by (auto split: if_splits)
    show ?thesis
    proof (cases "c = a")
      case True
      then show ?thesis using s'(2) by simp
    next
      case False
      then have "c \<in> set u" using Cons.prems(2) by simp
      then have "c \<in> set s'" using Cons.IH [OF s'(1)] Cons.prems(3) by blast
      then show ?thesis using s'(2) by simp
    qed
  qed
qed

lemma mem_take_sign:
  assumes "c \<in> set s" and "c \<noteq> CHR ''+''" and "c \<noteq> CHR ''-''"
  shows "c \<in> set (snd (take_sign s))"
  using assms by (cases s) auto

lemma py_int_letter:
  assumes "c \<in> set t" and "\<not> num_isspace c" and "c \<noteq> CHR ''_''"
    and "c \<noteq> CHR ''+''" and "c \<noteq> CHR ''-''" and "\<not> is_digit c"
  shows "py_int t = None"
proof (cases "drop_underscores (CHR 0x00) (strip_with num_isspace t)")
  case None
  then show ?thesis by (simp add: py_int_def)
next
  case (Some s)
  have "c \<in> set (strip_with num_isspace t)"
    using assms(1,2) by (rule mem_strip_with)
  then have "c \<in> set s"
    using Some assms(3) mem_drop_underscores by blast
  then have "c \<in> set (snd (take_sign s))"
    using assms(4,5) by (rule mem_take_sign)
  then have "\<not> list_all is_digit (snd (take_sign s))"
    using assms(6) by (auto simp: list_all_iff)
  then show ?thesis
    using Some by (simp add: py_int_def case_prod_unfold)
qed

lemma py_int_exponent:
  assumes "CHR ''e'' \<in> set t \<or> CHR ''E'' \<in> set t"
  shows "py_int t = None"
proof -
  have "\<not> num_isspace (CHR ''e'')" "\<not> is_digit (CHR ''e'')"
    "\<not> num_isspace (CHR ''E'')" "\<not> is_digit (CHR ''E'')"
    by (simp_all add: num_isspace_def is_digit_def)
  then show ?thesis
    using assms py_int_letter [of "CHR ''e''" t] py_int_letter [of "CHR ''E''" t] by auto
qed

text \<open>
  Claim C9, as stated: tokens with surrounding white space, signs, underscores or exponent
  notation are accepted, and such lines are published. This fails for exponent notation
  in the first token: \<open>int\<close> refuses \<open>1e3\<close>, so the line \<open>1e3,1,2,3,4\<close>, whose other
  tokens are plain, leaves \<open>latest_data\<close> as it was and is followed by the pause.
\<close>

theorem lenient_literals_counterexample:
  "py_int ''1e3'' = None
   \<and> py_float ''1e3'' = Some (Dec False 1 3)
   \<and> split_comma (strip ''1e3,1,2,3,4'') = [''1e3'', ''1'', ''2'', ''3'', ''4'']
   \<and> latest_data (iteration utf8_stdout (Line ''1e3,1,2,3,4'') initial_state)
       = [(''angle'', PyInt 0), (''distance'', PyInt 0), (''humidity'', PyInt 0),
          (''temperatureC'', PyInt 0), (''temperatureF'', PyInt 0)]
   \<and> added utf8_stdout (Line ''1e3,1,2,3,4'') initial_state =
       [Print_received ''1e3,1,2,3,4'', Print_serial_error (ValueError ''1e3''), Sleep 1]"
proof -
  have 1: "py_int ''1e3'' = None"
    by code_simp
  have 2: "py_float ''1e3'' = Some (Dec False 1 3)"
    by code_simp
  have 3: "split_comma (strip ''1e3,1,2,3,4'') = [''1e3'', ''1'', ''2'', ''3'', ''4'']"
    by code_simp
  have 4: "latest_data (iteration utf8_stdout (Line ''1e3,1,2,3,4'') initial_state)
       = [(''angle'', PyInt 0), (''distance'', PyInt 0), (''humidity'', PyInt 0),
          (''temperatureC'', PyInt 0), (''temperatureF'', PyInt 0)]"
    by code_simp
  have 5: "added utf8_stdout (Line ''1e3,1,2,3,4'') initial_state =
       [Print_received ''1e3,1,2,3,4'', Print_serial_error (ValueError ''1e3''), Sleep 1]"
    by code_simp
  show ?thesis
    using 1 2 3 4 5 by (intro conjI)
qed

text \<open>
  Claim C9, amended. The conversions take more than plain decimal literals. Both \<open>int\<close>
  and \<open>float\<close> ignore white space around a token, take a leading sign, and take a single
  underscore between two digits. \<open>float\<close>, which converts the tokens after the first,
  also takes a fraction and an exponent; \<open>int\<close>, which converts the first token, refuses
  every token with the letter of an exponent. \<open>float\<close> takes \<open>nan\<close>, \<open>inf\<close> and
  \<open>infinity\<close> in any letter case, with or without a sign. A line of five tokens accepted
  in this way, which \<open>stdout\<close> can encode, is published, non-finite values included, and
  the accessor returns it.
\<close>

theorem lenient_literals:
  "((\<forall>c\<in>set ws. num_isspace c) \<and> (\<forall>c\<in>set ws'. num_isspace c) \<longrightarrow>
      py_int (ws @ t @ ws') = py_int t \<and> py_float (ws @ t @ ws') = py_float t)
   \<and> ((sg = [] \<or> sg = ''+'' \<or> sg = ''-'') \<and> ds \<noteq> [] \<and> list_all is_digit ds
        \<and> length ds \<le> int_max_str_digits \<longrightarrow>
      py_int (sg @ ds) = Some (if sg = ''-'' then - int (digits_val ds) else int (digits_val ds)))
   \<and> (is_digit d1 \<and> is_digit d2 \<longrightarrow>
      py_int (x @ d1 # CHR ''_'' # d2 # y) = py_int (x @ d1 # d2 # y)
      \<and> py_float (x @ d1 # CHR ''_'' # d2 # y) = py_float (x @ d1 # d2 # y))
   \<and> ((sg = [] \<or> sg = ''+'' \<or> sg = ''-'') \<and> list_all is_digit ip \<and> list_all is_digit fp
        \<and> (ip \<noteq> [] \<or> fp \<noteq> []) \<and> (ec = CHR ''e'' \<or> ec = CHR ''E'')
        \<and> (esg = [] \<or> esg = ''+'' \<or> esg = ''-'') \<and> eds \<noteq> [] \<and> list_all is_digit eds \<longrightarrow>
      py_float (sg @ ip @ CHR ''.'' # fp @ ec # esg @ eds) =
        Some (Dec (sg = ''-'') (digits_val (ip @ fp))
          ((if esg = ''-'' then - int (digits_val eds) else int (digits_val eds))
            - int (length fp)))
      \<and> (ip \<noteq> [] \<longrightarrow> py_float (sg @ ip @ ec # esg @ eds) =
        Some (Dec (sg = ''-'') (digits_val ip)
          (if esg = ''-'' then - int (digits_val eds) else int (digits_val eds))))
      \<and> py_float (sg @ ip @ CHR ''.'' # fp) =
        Some (Dec (sg = ''-'') (digits_val (ip @ fp)) (- int (length fp)))
      \<and> (ip \<noteq> [] \<longrightarrow> py_float (sg @ ip) = Some (Dec (sg = ''-'') (digits_val ip) 0)))
   \<and> (CHR ''e'' \<in> set u \<or> CHR ''E'' \<in> set u \<longrightarrow> py_int u = None)
   \<and> (map to_lower w = ''nan'' \<longrightarrow>
        py_float w = Some NaN \<and> py_float (''+'' @ w) = Some NaN \<and> py_float (''-'' @ w) = Some NaN)
   \<and> (map to_lower w = ''inf'' \<or> map to_lower w = ''infinity'' \<longrightarrow>
        py_float w = Some (Inf False) \<and> py_float (''+'' @ w) = Some (Inf False)
        \<and> py_float (''-'' @ w) = Some (Inf True))
   \<and> (can_print enc (strip raw) \<and> split_comma (strip raw) = [t0, t1, t2, t3, t4]
        \<and> py_int t0 = Some a \<and> py_float t1 = Some d \<and> py_float t2 = Some h
        \<and> py_float t3 = Some c \<and> py_float t4 = Some f \<longrightarrow>
      fst (get_data (iteration enc (Line raw) s)) =
        [(''angle'', PyInt a), (''distance'', PyFloat d), (''humidity'', PyFloat h),
         (''temperatureC'', PyFloat c), (''temperatureF'', PyFloat f)])
   \<and> fst (get_data (iteration ascii_stdout (Line ''+4_5 , 1.25e1 ,NaN,-inf,Infinity'') s)) =
       [(''angle'', PyInt 45), (''distance'', PyFloat (Dec False 125 (- 1))),
        (''humidity'', PyFloat NaN), (''temperatureC'', PyFloat (Inf True)),
        (''temperatureF'', PyFloat (Inf False))]"
proof -
  have pad: "(\<forall>c\<in>set ws. num_isspace c) \<and> (\<forall>c\<in>set ws'. num_isspace c) \<longrightarrow>
      py_int (ws @ t @ ws') = py_int t \<and> py_float (ws @ t @ ws') = py_float t"
    by (intro impI, elim conjE) (intro conjI py_int_pad)
  have signed: "(sg = [] \<or> sg = ''+'' \<or> sg = ''-'') \<and> ds \<noteq> [] \<and> list_all is_digit ds
        \<and> length ds \<le> int_max_str_digits \<longrightarrow>
      py_int (sg @ ds) = Some (if sg = ''-'' then - int (digits_val ds) else int (digits_val ds))"
    by (intro impI, elim conjE) (rule py_int_signed)
  have under: "is_digit d1 \<and> is_digit d2 \<longrightarrow>
      py_int (x @ d1 # CHR ''_'' # d2 # y) = py_int (x @ d1 # d2 # y)
      \<and> py_float (x @ d1 # CHR ''_'' # d2 # y) = py_float (x @ d1 # d2 # y)"
    by (intro impI, elim conjE) (intro conjI underscore_between)
  have lit: "(sg = [] \<or> sg = ''+'' \<or> sg = ''-'') \<and> list_all is_digit ip \<and> list_all is_digit fp
        \<and> (ip \<noteq> [] \<or> fp \<noteq> []) \<and> (ec = CHR ''e'' \<or> ec = CHR ''E'')
        \<and> (esg = [] \<or> esg = ''+'' \<or> esg = ''-'') \<and> eds \<noteq> [] \<and> list_all is_digit eds \<longrightarrow>
      py_float (sg @ ip @ CHR ''.'' # fp @ ec # esg @ eds) =
        Some (Dec (sg = ''-'') (digits_val (ip @ fp))
          ((if esg = ''-'' then - int (digits_val eds) else int (digits_val eds))
            - int (length fp)))
      \<and> (ip \<noteq> [] \<longrightarrow> py_float (sg @ ip @ ec # esg @ eds) =
        Some (Dec (sg = ''-'') (digits_val ip)
          (if esg = ''-'' then - int (digits_val eds) else int (digits_val eds))))
      \<and> py_float (sg @ ip @ CHR ''.'' # fp) =
        Some (Dec (sg = ''-'') (digits_val (ip @ fp)) (- int (length fp)))
      \<and> (ip \<noteq> [] \<longrightarrow> py_float (sg @ ip) = Some (Dec (sg = ''-'') (digits_val ip) 0))"
    by (intro impI, elim conjE) (intro conjI impI py_float_literal)
  have noexp: "CHR ''e'' \<in> set u \<or> CHR ''E'' \<in> set u \<longrightarrow> py_int u = None"
    by (intro impI) (rule py_int_exponent)
  have nan: "map to_lower w = ''nan'' \<longrightarrow>
        py_float w = Some NaN \<and> py_float (''+'' @ w) = Some NaN \<and> py_float (''-'' @ w) = Some NaN"
  proof
    assume h: "map to_lower w = ''nan''"
    have w: "w \<noteq> []" "\<forall>c\<in>set w. to_lower c \<in> set ''nanifty''"
      using lower_word [OF h] by simp_all
    show "py_float w = Some NaN \<and> py_float (''+'' @ w) = Some NaN
        \<and> py_float (''-'' @ w) = Some NaN"
      using py_float_word [OF w, of "[]"] py_float_word [OF w, of "''+''"]
        py_float_word [OF w, of "''-''"] h
      by simp
  qed
  have inf: "map to_lower w = ''inf'' \<or> map to_lower w = ''infinity'' \<longrightarrow>
        py_float w = Some (Inf False) \<and> py_float (''+'' @ w) = Some (Inf False)
        \<and> py_float (''-'' @ w) = Some (Inf True)"
  proof
    assume h: "map to_lower w = ''inf'' \<or> map to_lower w = ''infinity''"
    have w: "w \<noteq> []" "\<forall>c\<in>set w. to_lower c \<in> set ''nanifty''"
      using h lower_word [of w "''inf''"] lower_word [of w "''infinity''"] by auto
    show "py_float w = Some (Inf False) \<and> py_float (''+'' @ w) = Some (Inf False)
        \<and> py_float (''-'' @ w) = Some (Inf True)"
      using py_float_word [OF w, of "[]"] py_float_word [OF w, of "''+''"]
        py_float_word [OF w, of "''-''"] h
      by auto
  qed
  have served: "fst (get_data (iteration enc' (Line raw') s)) =
        [(''angle'', PyInt a'), (''distance'', PyFloat d'), (''humidity'', PyFloat h'),
         (''temperatureC'', PyFloat c'), (''temperatureF'', PyFloat f')]"
    if "can_print enc' (strip raw')" "split_comma (strip raw') = [u0, u1, u2, u3, u4]"
      "py_int u0 = Some a'" "py_float u1 = Some d'" "py_float u2 = Some h'"
      "py_float u3 = Some c'" "py_float u4 = Some f'"
    for enc' raw' u0 u1 u2 u3 u4 a' d' h' c' f'
  proof -
    have "parse_reading (split_comma (strip raw')) =
        Inr (reading (PyInt a') (PyFloat d') (PyFloat h') (PyFloat c') (PyFloat f'))"
      using that by (intro parse_reading_ok) simp_all
    moreover have "length (split_comma (strip raw')) = 5"
      using that(2) by simp
    ultimately have "latest_data (iteration enc' (Line raw') s) =
        reading (PyInt a') (PyFloat d') (PyFloat h') (PyFloat c') (PyFloat f')"
      using that(1) by (simp add: iteration_publish)
    then show ?thesis by (simp add: get_data_def reading_def)
  qed
  have gen: "can_print enc (strip raw) \<and> split_comma (strip raw) = [t0, t1, t2, t3, t4]
        \<and> py_int t0 = Some a \<and> py_float t1 = Some d \<and> py_float t2 = Some h
        \<and> py_float t3 = Some c \<and> py_float t4 = Some f \<longrightarrow>
      fst (get_data (iteration enc (Line raw) s)) =
        [(''angle'', PyInt a), (''distance'', PyFloat d), (''humidity'', PyFloat h),
         (''temperatureC'', PyFloat c), (''temperatureF'', PyFloat f)]"
    by (intro impI, elim conjE) (rule served)
  let ?raw = "''+4_5 , 1.25e1 ,NaN,-inf,Infinity''"
  have pr: "can_print ascii_stdout (strip ?raw)"
    by code_simp
  have parts: "split_comma (strip ?raw) = [''+4_5 '', '' 1.25e1 '', ''NaN'', ''-inf'', ''Infinity'']"
    by code_simp
  have t0: "py_int ''+4_5 '' = Some 45" by code_simp
  have t1: "py_float '' 1.25e1 '' = Some (Dec False 125 (- 1))" by code_simp
  have t2: "py_float ''NaN'' = Some NaN" by code_simp
  have t3: "py_float ''-inf'' = Some (Inf True)" by code_simp
  have t4: "py_float ''Infinity'' = Some (Inf False)" by code_simp
  have line: "fst (get_data (iteration ascii_stdout (Line ?raw) s)) =
       [(''angle'', PyInt 45), (''distance'', PyFloat (Dec False 125 (- 1))),
        (''humidity'', PyFloat NaN), (''temperatureC'', PyFloat (Inf True)),
        (''temperatureF'', PyFloat (Inf False))]"
    using pr parts t0 t1 t2 t3 t4 by (rule served)
  show ?thesis
    by (intro conjI) (fact pad signed under lit noexp nan inf gen line)+
qed

text \<open>
  The token \<open>45\<close> between a tab, a space and a carriage return; \<open>-45\<close>; \<open>1_000\<close>;
  \<open>-1.25e+1\<close> and \<open>-1e+1\<close>; \<open>1e3\<close> refused by \<open>int\<close>; \<open>nAn\<close> and \<open>-InFiNiTy\<close>; and
  the line \<open>-4_5,1.25e1,.5,nan,+INF\<close> on an ASCII \<open>stdout\<close>.
\<close>

theorem lenient_literals_witness:
  "num_isspace (CHR 0x09) \<and> num_isspace (CHR 0x20) \<and> num_isspace (CHR 0x0D)
   \<and> py_int ([CHR 0x09, CHR 0x20] @ ''45'' @ [CHR 0x0D]) = py_int ''45''
   \<and> py_float ([CHR 0x09, CHR 0x20] @ ''45'' @ [CHR 0x0D]) = py_float ''45''
   \<and> list_all is_digit ''45'' \<and> length ''45'' \<le> int_max_str_digits
   \<and> py_int (''-'' @ ''45'') = Some (- 45)
   \<and> is_digit (CHR ''1'') \<and> is_digit (CHR ''0'')
   \<and> py_int ([] @ CHR ''1'' # CHR ''_'' # CHR ''0'' # ''00'') = py_int ''1000''
   \<and> py_float ([] @ CHR ''1'' # CHR ''_'' # CHR ''0'' # ''00'') = py_float ''1000''
   \<and> list_all is_digit ''1'' \<and> list_all is_digit ''25''
   \<and> py_float (''-'' @ ''1'' @ CHR ''.'' # ''25'' @ CHR ''e'' # ''+'' @ ''1'')
       = Some (Dec True 125 (- 1))
   \<and> py_float (''-'' @ ''1'' @ CHR ''e'' # ''+'' @ ''1'') = Some (Dec True 1 1)
   \<and> CHR ''e'' \<in> set ''1e3'' \<and> py_int ''1e3'' = None
   \<and> map to_lower ''nAn'' = ''nan'' \<and> py_float ''nAn'' = Some NaN
   \<and> map to_lower ''InFiNiTy'' = ''infinity''
   \<and> py_float (''-'' @ ''InFiNiTy'') = Some (Inf True)
   \<and> can_print ascii_stdout (strip ''-4_5,1.25e1,.5,nan,+INF'')
   \<and> split_comma (strip ''-4_5,1.25e1,.5,nan,+INF'')
       = [''-4_5'', ''1.25e1'', ''.5'', ''nan'', ''+INF'']
   \<and> fst (get_data (iteration ascii_stdout (Line ''-4_5,1.25e1,.5,nan,+INF'') initial_state)) =
       [(''angle'', PyInt (- 45)), (''distance'', PyFloat (Dec False 125 (- 1))),
        (''humidity'', PyFloat (Dec False 5 (- 1))), (''temperatureC'', PyFloat NaN),
        (''temperatureF'', PyFloat (Inf False))]"
proof -
  have sp: "num_isspace (CHR 0x09)" "num_isspace (CHR 0x20)" "num_isspace (CHR 0x0D)"
    by (simp_all add: num_isspace_def)
  have sp': "\<forall>c\<in>set [CHR 0x09, CHR 0x20]. num_isspace c" "\<forall>c\<in>set [CHR 0x0D]. num_isspace c"
    using sp by simp_all
  have dg: "list_all is_digit ''45''" "length ''45'' \<le> int_max_str_digits"
    "is_digit (CHR ''1'')" "is_digit (CHR ''0'')" "list_all is_digit ''1''"
    "list_all is_digit ''25''"
    by (simp_all add: is_digit_def int_max_str_digits_def)
  have val: "digits_val ''45'' = 45" "digits_val (''1'' @ ''25'') = 125" "digits_val ''1'' = 1"
    by (simp_all add: digits_val_def digit_val_def)
  have e3: "CHR ''e'' \<in> set ''1e3''"
    by simp
  have n: "map to_lower ''nAn'' = ''nan''"
    by code_simp
  have i: "map to_lower ''InFiNiTy'' = ''infinity''"
    by code_simp
  have pr: "can_print ascii_stdout (strip ''-4_5,1.25e1,.5,nan,+INF'')"
    by code_simp
  have parts: "split_comma (strip ''-4_5,1.25e1,.5,nan,+INF'')
       = [''-4_5'', ''1.25e1'', ''.5'', ''nan'', ''+INF'']"
    by code_simp
  have tk: "py_int ''-4_5'' = Some (- 45)" "py_float ''1.25e1'' = Some (Dec False 125 (- 1))"
    "py_float ''.5'' = Some (Dec False 5 (- 1))" "py_float ''nan'' = Some NaN"
    "py_float ''+INF'' = Some (Inf False)"
    by code_simp+
  note a = lenient_literals
    [where ws = "[CHR 0x09, CHR 0x20]" and ws' = "[CHR 0x0D]" and t = "''45''"
      and sg = "''-''" and ds = "''45''"
      and ?d1.0 = "CHR ''1''" and ?d2.0 = "CHR ''0''" and x = "[]" and y = "''00''"
      and ip = "''1''" and fp = "''25''" and ec = "CHR ''e''" and esg = "''+''" and eds = "''1''"
      and u = "''1e3''" and w = "''nAn''"
      and enc = ascii_stdout and raw = "''-4_5,1.25e1,.5,nan,+INF''"
      and ?t0.0 = "''-4_5''" and ?t1.0 = "''1.25e1''" and ?t2.0 = "''.5''" and ?t3.0 = "''nan''"
      and ?t4.0 = "''+INF''" and a = "- 45" and d = "Dec False 125 (- 1)"
      and h = "Dec False 5 (- 1)" and c = NaN and f = "Inf False" and s = initial_state]
  note b = lenient_literals [where w = "''InFiNiTy''"]
  note a1 = a [THEN conjunct1]
  note a2 = a [THEN conjunct2, THEN conjunct1]
  note a3 = a [THEN conjunct2, THEN conjunct2, THEN conjunct1]
  note a4 = a [THEN conjunct2, THEN conjunct2, THEN conjunct2, THEN conjunct1]
  note a5 = a [THEN conjunct2, THEN conjunct2, THEN conjunct2, THEN conjunct2, THEN conjunct1]
  note a6 = a [THEN conjunct2, THEN conjunct2, THEN conjunct2, THEN conjunct2, THEN conjunct2,
    THEN conjunct1]
  note b7 = b [THEN conjunct2, THEN conjunct2, THEN conjunct2, THEN conjunct2, THEN conjunct2,
    THEN conjunct2, THEN conjunct1]
  note a8 = a [THEN conjunct2, THEN conjunct2, THEN conjunct2, THEN conjunct2, THEN conjunct2,
    THEN conjunct2, THEN conjunct2, THEN conjunct1]
  have pad: "py_int ([CHR 0x09, CHR 0x20] @ ''45'' @ [CHR 0x0D]) = py_int ''45''
      \<and> py_float ([CHR 0x09, CHR 0x20] @ ''45'' @ [CHR 0x0D]) = py_float ''45''"
    by (rule a1 [THEN mp]) (intro conjI sp')
  have "py_int (''-'' @ ''45'') =
      Some (if ''-'' = ''-'' then - int (digits_val ''45'') else int (digits_val ''45''))"
    by (rule a2 [THEN mp]) (intro conjI disjI2 dg refl, simp)
  then have signed: "py_int (''-'' @ ''45'') = Some (- 45)"
    unfolding val by simp
  have "py_int ([] @ CHR ''1'' # CHR ''_'' # CHR ''0'' # ''00'')
        = py_int ([] @ CHR ''1'' # CHR ''0'' # ''00'')
      \<and> py_float ([] @ CHR ''1'' # CHR ''_'' # CHR ''0'' # ''00'')
        = py_float ([] @ CHR ''1'' # CHR ''0'' # ''00'')"
    by (rule a3 [THEN mp]) (intro conjI dg)
  then have under: "py_int ([] @ CHR ''1'' # CHR ''_'' # CHR ''0'' # ''00'') = py_int ''1000''
      \<and> py_float ([] @ CHR ''1'' # CHR ''_'' # CHR ''0'' # ''00'') = py_float ''1000''"
    by simp
  have hyp4: "(''-'' = [] \<or> ''-'' = ''+'' \<or> ''-'' = ''-'') \<and> list_all is_digit ''1''
      \<and> list_all is_digit ''25'' \<and> (''1'' \<noteq> [] \<or> ''25'' \<noteq> [])
      \<and> (CHR ''e'' = CHR ''e'' \<or> CHR ''e'' = CHR ''E'')
      \<and> (''+'' = [] \<or> ''+'' = ''+'' \<or> ''+'' = ''-'') \<and> ''1'' \<noteq> [] \<and> list_all is_digit ''1''"
    using dg by simp
  have lit: "py_float (''-'' @ ''1'' @ CHR ''.'' # ''25'' @ CHR ''e'' # ''+'' @ ''1'')
       = Some (Dec True 125 (- 1))
      \<and> py_float (''-'' @ ''1'' @ CHR ''e'' # ''+'' @ ''1'') = Some (Dec True 1 1)"
    using a4 [THEN mp, OF hyp4] val by simp
  have noexp: "py_int ''1e3'' = None"
    by (rule a5 [THEN mp]) (rule disjI1, rule e3)
  have nan: "py_float ''nAn'' = Some NaN"
    using a6 [THEN mp, OF n] by (elim conjE)
  have i': "map to_lower ''InFiNiTy'' = ''inf'' \<or> map to_lower ''InFiNiTy'' = ''infinity''"
    using i by (rule disjI2)
  have inf: "py_float (''-'' @ ''InFiNiTy'') = Some (Inf True)"
    using b7 [THEN mp, OF i'] by (elim conjE)
  have line: "fst (get_data (iteration ascii_stdout (Line ''-4_5,1.25e1,.5,nan,+INF'') initial_state)) =
       [(''angle'', PyInt (- 45)), (''distance'', PyFloat (Dec False 125 (- 1))),
        (''humidity'', PyFloat (Dec False 5 (- 1))), (''temperatureC'', PyFloat NaN),
        (''temperatureF'', PyFloat (Inf False))]"
    by (rule a8 [THEN mp]) (intro conjI pr parts tk)
  show ?thesis
    by (intro conjI)
      (fact sp dg e3 n i pr parts signed noexp nan inf line
        pad [THEN conjunct1] pad [THEN conjunct2] under [THEN conjunct1] under [THEN conjunct2]
        lit [THEN conjunct1] lit [THEN conjunct2])+
qed

end
